theory Spec2Isabelle
  imports Complex_Main "HOL-Library.Sublist" "HOL-Library.AList"
begin

section \<open>Python values\<close>

text \<open>
  The program handles decoded JSON throughout: the language model's answer, the generated
  query, filters and pipeline stages. A Python \<open>dict\<close> keeps its keys in insertion order
  and the validators report the first offending key in that order, so a mapping is an
  association list. JSON numbers are modelled by \<open>int\<close>: the code only ever tests a number
  for truthiness or copies it. A Python string is the list of the bytes of its UTF-8
  encoding: searching for a substring, counting a character and splitting at line feeds
  are the same on the characters and on the bytes. Python's \<open>str.upper\<close>, \<open>str.lower\<close>
  and \<open>str.strip\<close> follow the Unicode tables of the interpreter; they are parameters of
  every function that calls them.
\<close>

datatype json =
    JNull
  | JBool bool
  | JNum int
  | JStr string
  | JList "json list"
  | JDict "(string \<times> json) list"

text \<open>The exceptions the modelled code can raise; \<open>ExternalError\<close> is whatever a collaborator
  (language model client, database driver, data-frame library) raises, with its message.\<close>

datatype exn =
    AttributeError
  | TypeError
  | RecursionError
  | JSONDecodeError string
  | ExternalError string

text \<open>Python truthiness, as tested by \<open>if x:\<close> and \<open>not x\<close>.\<close>

fun truthy :: "json \<Rightarrow> bool" where
  "truthy JNull = False"
| "truthy (JBool b) = b"
| "truthy (JNum n) = (n \<noteq> 0)"
| "truthy (JStr s) = (s \<noteq> [])"
| "truthy (JList xs) = (xs \<noteq> [])"
| "truthy (JDict d) = (d \<noteq> [])"

text \<open>\<open>d.get(k)\<close> and \<open>d.get(k, default)\<close>.\<close>

definition dict_get :: "(string \<times> json) list \<Rightarrow> string \<Rightarrow> json" where
  "dict_get d k = (case map_of d k of None \<Rightarrow> JNull | Some v \<Rightarrow> v)"

definition dict_get_default :: "(string \<times> json) list \<Rightarrow> string \<Rightarrow> json \<Rightarrow> json" where
  "dict_get_default d k dflt = (case map_of d k of None \<Rightarrow> dflt | Some v \<Rightarrow> v)"

section \<open>Strings\<close>

definition upper_char :: "char \<Rightarrow> char" where
  "upper_char c =
     (let n = (of_char c :: nat) in if 97 \<le> n \<and> n \<le> 122 then char_of (n - 32) else c)"

definition lower_char :: "char \<Rightarrow> char" where
  "lower_char c =
     (let n = (of_char c :: nat) in if 65 \<le> n \<and> n \<le> 90 then char_of (n + 32) else c)"

text \<open>What \<open>str.upper\<close> and \<open>str.lower\<close> do to a text of ASCII characters.\<close>

definition ascii_upper :: "string \<Rightarrow> string" where
  "ascii_upper s = map upper_char s"

definition ascii_lower :: "string \<Rightarrow> string" where
  "ascii_lower s = map lower_char s"

text \<open>
  A text of ASCII characters, and what is known of Python's \<open>str.upper\<close> and \<open>str.lower\<close>
  without the Unicode tables: \<open>str.upper\<close> converts character by character, so a piece of
  ASCII characters inside any text is upper-cased in place; \<open>str.lower\<close> lower-cases a text
  of ASCII characters letter by letter.
\<close>

definition ascii_text :: "string \<Rightarrow> bool" where
  "ascii_text s = list_all (\<lambda>c. (of_char c :: nat) < 128) s"

definition upper_cases_ascii :: "(string \<Rightarrow> string) \<Rightarrow> bool" where
  "upper_cases_ascii upper =
     (upper [] = [] \<and>
      (\<forall>a p b. ascii_text p \<and> p \<noteq> [] \<longrightarrow> upper (a @ p @ b) = upper a @ ascii_upper p @ upper b))"

definition lower_cases_ascii :: "(string \<Rightarrow> string) \<Rightarrow> bool" where
  "lower_cases_ascii lower = (\<forall>s. ascii_text s \<longrightarrow> lower s = ascii_lower s)"

text \<open>
  \<open>str.upper\<close> on texts made of ASCII characters and of U+1E97 (small t with diaeresis,
  in UTF-8 the bytes E1 BA 97), whose upper-case form is \<open>T\<close> followed by the combining
  diaeresis U+0308 (bytes CC 88).
\<close>

fun upper_t_diaeresis :: "string \<Rightarrow> string" where
  "upper_t_diaeresis (a # b # c # rest) =
     (if a = CHR 0xE1 \<and> b = CHR 0xBA \<and> c = CHR 0x97
      then CHR ''T'' # CHR 0xCC # CHR 0x88 # upper_t_diaeresis rest
      else upper_char a # upper_t_diaeresis (b # c # rest))"
| "upper_t_diaeresis (a # rest) = upper_char a # upper_t_diaeresis rest"
| "upper_t_diaeresis [] = []"

text \<open>Python's \<open>needle in haystack\<close> on strings: scan the start positions left to right.\<close>

fun str_in :: "string \<Rightarrow> string \<Rightarrow> bool" where
  "str_in needle [] = (needle = [])"
| "str_in needle (c # cs) = (prefix needle (c # cs) \<or> str_in needle cs)"

text \<open>\<open>s.count(';')\<close>.\<close>

definition str_count :: "string \<Rightarrow> char \<Rightarrow> nat" where
  "str_count s c = length (filter (\<lambda>x. x = c) s)"

section \<open>Safety validator for SQL text (\<open>utils/helpers.py\<close>)\<close>

record verdict =
  safe :: bool
  reason :: "string option"

text \<open>\<open>Settings.blocked_sql_keywords\<close> of \<open>config.py\<close>.\<close>

definition blocked_sql_keywords :: "string list" where
  "blocked_sql_keywords =
     [''DROP'', ''DELETE'', ''TRUNCATE'', ''UPDATE'', ''INSERT'',
      ''ALTER'', ''CREATE'', ''GRANT'', ''REVOKE'', ''EXEC'',
      ''EXECUTE'', ''MERGE'', ''CALL'']"

text \<open>
  The loop \<open>for keyword in blocked_keywords: if keyword.upper() in sql_upper: return ...\<close>.
  It yields the first keyword found. A keyword that is not a string has no \<open>upper\<close>:
  the call raises \<open>AttributeError\<close> when the loop reaches it.
\<close>

fun blocked_loop :: "(string \<Rightarrow> string) \<Rightarrow> string \<Rightarrow> json list \<Rightarrow> exn + string option" where
  "blocked_loop upper sql_upper [] = Inr None"
| "blocked_loop upper sql_upper (JStr keyword # rest) =
     (if str_in (upper keyword) sql_upper then Inr (Some keyword)
      else blocked_loop upper sql_upper rest)"
| "blocked_loop upper sql_upper (_ # rest) = Inl AttributeError"

text \<open>
  \<open>validate_sql_safety(sql, blocked_keywords)\<close>. The arguments are Python values: the first
  statement \<open>sql.upper()\<close> raises \<open>AttributeError\<close> on anything but a string. The first
  parameter is Python's \<open>str.upper\<close>.
\<close>

definition validate_sql_safety ::
  "(string \<Rightarrow> string) \<Rightarrow> json \<Rightarrow> json list \<Rightarrow> exn + verdict" where
  "validate_sql_safety upper sql blocked_keywords =
     (case sql of
        JStr s \<Rightarrow>
          (case blocked_loop upper (upper s) blocked_keywords of
             Inl e \<Rightarrow> Inl e
           | Inr (Some keyword) \<Rightarrow>
               Inr \<lparr>safe = False,
                    reason = Some (''Query contains blocked keyword: '' @ keyword)\<rparr>
           | Inr None \<Rightarrow>
               if str_count s (CHR '';'') > 1
               then Inr \<lparr>safe = False, reason = Some ''Multiple SQL statements not allowed''\<rparr>
               else Inr \<lparr>safe = True, reason = None\<rparr>)
      | _ \<Rightarrow> Inl AttributeError)"

text \<open>
  The specification's wording of the relational rule: the text contains the keyword
  "case-insensitively as a substring", that is, some contiguous piece of the text equals the
  keyword once both are upper-cased. \<open>contains_ignoring_case\<close> takes the upper-casing as
  its first argument.
\<close>

definition contains_ignoring_case :: "(string \<Rightarrow> string) \<Rightarrow> string \<Rightarrow> string \<Rightarrow> bool" where
  "contains_ignoring_case upper text kw =
     (\<exists>piece. sublist piece text \<and> upper piece = upper kw)"

section \<open>Safety validator for document queries (\<open>utils/helpers.py\<close>)\<close>

text \<open>
  The result of the nested \<open>check_dict\<close> is \<open>Optional[str]\<close> and is tested by
  \<open>if result:\<close>, which holds for a non-empty string only.
\<close>

definition found :: "string option \<Rightarrow> bool" where
  "found result = (case result of None \<Rightarrow> False | Some r \<Rightarrow> r \<noteq> [])"

text \<open>
  \<open>check_dict\<close> walks the items of a mapping in order. A value that is a mapping is walked
  by a nested call; of a value that is a list, the items that are mappings are walked by
  nested calls, and the other items (lists among them) are skipped. \<open>check_items\<close> is the
  inner \<open>for item in value\<close> loop. The interpreter bounds the depth of nested calls: \<open>room\<close>
  is the number of further nested calls of \<open>check_dict\<close> it still allows, and a call beyond
  it raises \<open>RecursionError\<close>. The second argument is the list \<open>dangerous_operators\<close>.
\<close>

fun check_dict :: "nat \<Rightarrow> string list \<Rightarrow> (string \<times> json) list \<Rightarrow> exn + string option"
  and check_items :: "nat \<Rightarrow> string list \<Rightarrow> json list \<Rightarrow> exn + string option" where
  "check_dict room ops [] = Inr None"
| "check_dict room ops ((key, value) # d) =
     (if key \<in> set ops then Inr (Some (''Query contains dangerous operator: '' @ key))
      else case value of
          JDict d' \<Rightarrow>
            (case room of
               0 \<Rightarrow> Inl RecursionError
             | Suc room' \<Rightarrow>
                 (case check_dict room' ops d' of
                    Inl e \<Rightarrow> Inl e
                  | Inr result \<Rightarrow> if found result then Inr result else check_dict room ops d))
        | JList items \<Rightarrow>
            (case check_items room ops items of
               Inl e \<Rightarrow> Inl e
             | Inr result \<Rightarrow> if found result then Inr result else check_dict room ops d)
        | _ \<Rightarrow> check_dict room ops d)"
| "check_items room ops [] = Inr None"
| "check_items room ops (item # items) =
     (case item of
        JDict d' \<Rightarrow>
          (case room of
             0 \<Rightarrow> Inl RecursionError
           | Suc room' \<Rightarrow>
               (case check_dict room' ops d' of
                  Inl e \<Rightarrow> Inl e
                | Inr result \<Rightarrow> if found result then Inr result else check_items room ops items))
      | _ \<Rightarrow> check_items room ops items)"

definition dangerous_operators :: "string list" where
  "dangerous_operators = [''$where'', ''$function'']"

text \<open>
  \<open>validate_mongo_safety(query)\<close>, run when the interpreter allows \<open>room\<close> further nested
  calls of \<open>check_dict\<close>. The first call is \<open>check_dict(query)\<close>; its first statement
  \<open>query.items()\<close> raises \<open>AttributeError\<close> when \<open>query\<close> is not a mapping.
\<close>

definition validate_mongo_safety :: "nat \<Rightarrow> json \<Rightarrow> exn + verdict" where
  "validate_mongo_safety room query =
     (case room of
        0 \<Rightarrow> Inl RecursionError
      | Suc room' \<Rightarrow>
          (case query of
             JDict d \<Rightarrow>
               (case check_dict room' dangerous_operators d of
                  Inl e \<Rightarrow> Inl e
                | Inr result \<Rightarrow>
                    if found result then Inr \<lparr>safe = False, reason = result\<rparr>
                    else Inr \<lparr>safe = True, reason = None\<rparr>)
           | _ \<Rightarrow> Inl AttributeError))"

section \<open>The execution-side check of the document client (\<open>mcp/mongodb_mcp.py\<close>)\<close>

text \<open>\<open>MongoDBMCPClient._is_safe_query\<close>: the same walk, answering a boolean, over a
  denylist of three operators.\<close>

fun safe_dict :: "nat \<Rightarrow> string list \<Rightarrow> (string \<times> json) list \<Rightarrow> exn + bool"
  and safe_items :: "nat \<Rightarrow> string list \<Rightarrow> json list \<Rightarrow> exn + bool" where
  "safe_dict room ops [] = Inr True"
| "safe_dict room ops ((key, value) # d) =
     (if key \<in> set ops then Inr False
      else case value of
          JDict d' \<Rightarrow>
            (case room of
               0 \<Rightarrow> Inl RecursionError
             | Suc room' \<Rightarrow>
                 (case safe_dict room' ops d' of
                    Inl e \<Rightarrow> Inl e
                  | Inr ok \<Rightarrow> if \<not> ok then Inr False else safe_dict room ops d))
        | JList items \<Rightarrow>
            (case safe_items room ops items of
               Inl e \<Rightarrow> Inl e
             | Inr ok \<Rightarrow> if \<not> ok then Inr False else safe_dict room ops d)
        | _ \<Rightarrow> safe_dict room ops d)"
| "safe_items room ops [] = Inr True"
| "safe_items room ops (item # items) =
     (case item of
        JDict d' \<Rightarrow>
          (case room of
             0 \<Rightarrow> Inl RecursionError
           | Suc room' \<Rightarrow>
               (case safe_dict room' ops d' of
                  Inl e \<Rightarrow> Inl e
                | Inr ok \<Rightarrow> if \<not> ok then Inr False else safe_items room ops items))
      | _ \<Rightarrow> safe_items room ops items)"

definition mcp_dangerous_operators :: "string list" where
  "mcp_dangerous_operators = [''$where'', ''$function'', ''$accumulator'']"

definition is_safe_query :: "nat \<Rightarrow> json \<Rightarrow> exn + bool" where
  "is_safe_query room query =
     (case room of
        0 \<Rightarrow> Inl RecursionError
      | Suc room' \<Rightarrow>
          (case query of
             JDict d \<Rightarrow> safe_dict room' mcp_dangerous_operators d
           | _ \<Rightarrow> Inl AttributeError))"

section \<open>Keys and depth of a document\<close>

text \<open>
  Every key of every mapping that occurs anywhere inside a value, however the mappings and
  lists are nested.
\<close>

fun keys_of :: "json \<Rightarrow> string list"
  and keys_of_dict :: "(string \<times> json) list \<Rightarrow> string list"
  and keys_of_list :: "json list \<Rightarrow> string list" where
  "keys_of (JDict d) = keys_of_dict d"
| "keys_of (JList xs) = keys_of_list xs"
| "keys_of JNull = []"
| "keys_of (JBool b) = []"
| "keys_of (JNum n) = []"
| "keys_of (JStr s) = []"
| "keys_of_dict [] = []"
| "keys_of_dict ((k, v) # d) = k # keys_of v @ keys_of_dict d"
| "keys_of_list [] = []"
| "keys_of_list (x # xs) = keys_of x @ keys_of_list xs"

text \<open>
  The keys the walk of \<open>check_dict\<close> visits: those of the mapping, of mappings that are
  values of visited keys, and of mappings that are items of a list that is such a value.
\<close>

fun walked_keys :: "(string \<times> json) list \<Rightarrow> string list"
  and walked_item_keys :: "json list \<Rightarrow> string list" where
  "walked_keys [] = []"
| "walked_keys ((k, v) # d) =
     k # (case v of JDict d' \<Rightarrow> walked_keys d' | JList items \<Rightarrow> walked_item_keys items | _ \<Rightarrow> [])
       @ walked_keys d"
| "walked_item_keys [] = []"
| "walked_item_keys (item # items) =
     (case item of JDict d' \<Rightarrow> walked_keys d' | _ \<Rightarrow> []) @ walked_item_keys items"

text \<open>The number of nested calls the walk of a mapping needs below the first one.\<close>

fun walk_depth :: "(string \<times> json) list \<Rightarrow> nat"
  and walk_depth_items :: "json list \<Rightarrow> nat" where
  "walk_depth [] = 0"
| "walk_depth ((k, v) # d) =
     max (case v of JDict d' \<Rightarrow> Suc (walk_depth d') | JList items \<Rightarrow> walk_depth_items items | _ \<Rightarrow> 0)
         (walk_depth d)"
| "walk_depth_items [] = 0"
| "walk_depth_items (item # items) =
     max (case item of JDict d' \<Rightarrow> Suc (walk_depth d') | _ \<Rightarrow> 0) (walk_depth_items items)"

text \<open>
  What a walk may answer for a mapping with the given visited keys: a message, which is never
  empty, when a denylisted operator is among them, \<open>None\<close> when none is, and no exception
  but \<open>RecursionError\<close>.
\<close>

definition walk_result :: "string list \<Rightarrow> string list \<Rightarrow> exn + string option \<Rightarrow> bool" where
  "walk_result ops keys outcome =
     (case outcome of
        Inl e \<Rightarrow> e = RecursionError
      | Inr None \<Rightarrow> set keys \<inter> set ops = {}
      | Inr (Some m) \<Rightarrow> m \<noteq> [] \<and> set keys \<inter> set ops \<noteq> {})"

text \<open>The mapping \<open>{"a": {"a": ... {}}}\<close> of \<open>n\<close> nested mappings under the key \<open>a\<close>.\<close>

fun nested :: "nat \<Rightarrow> (string \<times> json) list" where
  "nested 0 = []"
| "nested (Suc n) = [(''a'', JDict (nested n))]"

section \<open>The keyword router (\<open>DatabaseAgent._fast_route\<close>)\<close>

record routing =
  database :: string
  confidence :: real

definition mongo_keywords :: "string list" where
  "mongo_keywords =
     [''event'', ''events'', ''log'', ''logs'', ''session'', ''sessions'',
      ''click'', ''clicks'', ''page view'', ''pageview'', ''tracking'',
      ''analytics'', ''user activity'', ''behavior'', ''metric'', ''metrics'']"

definition postgres_keywords :: "string list" where
  "postgres_keywords =
     [''customer'', ''customers'', ''order'', ''orders'', ''product'', ''products'',
      ''sale'', ''sales'', ''revenue'', ''purchase'', ''purchases'', ''buyer'',
      ''inventory'', ''price'', ''quantity'', ''item'', ''items'', ''spent'',
      ''top-selling'', ''best selling'', ''order_items'']"

text \<open>\<open>sum(1 for kw in keywords if kw in query_lower)\<close>.\<close>

definition keyword_matches :: "string list \<Rightarrow> string \<Rightarrow> nat" where
  "keyword_matches keywords query_lower =
     length (filter (\<lambda>kw. str_in kw query_lower) keywords)"

text \<open>\<open>_fast_route(user_query)\<close>; the first parameter is Python's \<open>str.lower\<close>, the second
  the agent's list \<open>available_databases\<close>.\<close>

definition fast_route :: "(string \<Rightarrow> string) \<Rightarrow> string list \<Rightarrow> string \<Rightarrow> routing" where
  "fast_route lower available_databases user_query =
     (let query_lower = lower user_query;
          mongo_score = keyword_matches mongo_keywords query_lower;
          postgres_score = keyword_matches postgres_keywords query_lower;
          has_postgres = (''postgresql'' \<in> set available_databases);
          has_mongo = (''mongodb'' \<in> set available_databases)
      in if mongo_score > postgres_score \<and> has_mongo
           then \<lparr>database = ''mongodb'', confidence = 0.8\<rparr>
         else if postgres_score > 0 \<and> has_postgres
           then \<lparr>database = ''postgresql'', confidence = 0.8\<rparr>
         else if has_postgres
           then \<lparr>database = ''postgresql'', confidence = 0.6\<rparr>
         else if has_mongo
           then \<lparr>database = ''mongodb'', confidence = 0.6\<rparr>
         else \<lparr>database = ''postgresql'', confidence = 0.5\<rparr>)"

text \<open>
  The specification's notions: a question mentions an indicator keyword when the keyword
  (written in lower case) occurs in the question once the question is lower-cased, and a
  store's score is the number of entries of its indicator list that the question
  mentions. \<open>spells\<close> is the reading by pieces: some contiguous piece of the question is
  the keyword up to the case of its ASCII letters.
\<close>

definition mentions :: "(string \<Rightarrow> string) \<Rightarrow> string \<Rightarrow> string \<Rightarrow> bool" where
  "mentions lower question kw = sublist kw (lower question)"

definition spells :: "string \<Rightarrow> string \<Rightarrow> bool" where
  "spells question kw = (\<exists>piece. sublist piece question \<and> ascii_lower piece = kw)"

definition document_score :: "(string \<Rightarrow> string) \<Rightarrow> string \<Rightarrow> nat" where
  "document_score lower question = length (filter (mentions lower question) mongo_keywords)"

definition relational_score :: "(string \<Rightarrow> string) \<Rightarrow> string \<Rightarrow> nat" where
  "relational_score lower question = length (filter (mentions lower question) postgres_keywords)"

text \<open>The five rules of the specification, in order, over the two scores and the two
  availabilities.\<close>

definition route_policy :: "nat \<Rightarrow> nat \<Rightarrow> bool \<Rightarrow> bool \<Rightarrow> routing" where
  "route_policy doc_score rel_score doc_available rel_available =
     (if doc_score > rel_score \<and> doc_available
        then \<lparr>database = ''mongodb'', confidence = 0.8\<rparr>
      else if rel_score > 0 \<and> rel_available
        then \<lparr>database = ''postgresql'', confidence = 0.8\<rparr>
      else if rel_available
        then \<lparr>database = ''postgresql'', confidence = 0.6\<rparr>
      else if doc_available
        then \<lparr>database = ''mongodb'', confidence = 0.6\<rparr>
      else \<lparr>database = ''postgresql'', confidence = 0.5\<rparr>)"

section \<open>Cleaning and parsing the model's answer (\<open>_parse_response\<close>)\<close>

text \<open>What \<open>str.strip()\<close> does to a text of ASCII characters: it removes leading and
  trailing white space (tab, line feed, vertical tab, form feed, carriage return, the four
  separators 28 to 31, and space).\<close>

definition is_space :: "char \<Rightarrow> bool" where
  "is_space c = (let n = (of_char c :: nat) in (9 \<le> n \<and> n \<le> 13) \<or> (28 \<le> n \<and> n \<le> 32))"

definition ascii_strip :: "string \<Rightarrow> string" where
  "ascii_strip s = rev (dropWhile is_space (rev (dropWhile is_space s)))"

definition newline :: char where
  "newline = CHR 0x0A"

text \<open>\<open>s.split("\n")\<close> and \<open>"\n".join(lines)\<close>.\<close>

fun split_nl :: "string \<Rightarrow> string list" where
  "split_nl [] = [[]]"
| "split_nl (c # cs) =
     (if c = newline then [] # split_nl cs
      else (c # hd (split_nl cs)) # tl (split_nl cs))"

fun join_nl :: "string list \<Rightarrow> string" where
  "join_nl [] = []"
| "join_nl [l] = l"
| "join_nl (l # ls) = l @ newline # join_nl ls"

text \<open>
  The first lines of both \<open>_parse_response\<close> methods: strip the text; if it starts with
  a code fence, keep the lines between the first and the last one (\<open>lines[1:-1]\<close>), and
  drop a leading \<open>json\<close> from what remains. The first parameter is Python's \<open>str.strip\<close>.
\<close>

definition clean_response :: "(string \<Rightarrow> string) \<Rightarrow> string \<Rightarrow> string" where
  "clean_response strip text =
     (let response = strip text in
      if prefix ''```'' response then
        (let lines = split_nl response;
             response = join_nl (butlast (tl lines))
         in if prefix ''json'' response then drop 4 response else response)
      else response)"

text \<open>
  \<open>SQLGenerator._parse_response\<close>. The decoder \<open>json.loads\<close> and the pattern search
  \<open>re.search(r'SELECT.*?(?:;|$)', response, re.IGNORECASE | re.DOTALL)\<close> belong to the
  Python library and are parameters: \<open>loads\<close> returns the decoded value or raises,
  \<open>search\<close> returns the matched text if there is a match. Only \<open>JSONDecodeError\<close> is
  handled; \<open>result.get\<close> on a decoded value that is not a mapping and \<open>.strip()\<close> on a
  truthy \<open>sql\<close> that is not a string raise \<open>AttributeError\<close>, which leaves the method.
  \<open>msg\<close> renders an exception as text (\<open>str(e)\<close>).
\<close>

definition sql_parse_response ::
  "(string \<Rightarrow> string) \<Rightarrow> (string \<Rightarrow> exn + json) \<Rightarrow> (string \<Rightarrow> string option) \<Rightarrow>
   (exn \<Rightarrow> string) \<Rightarrow> string \<Rightarrow> exn + (string \<times> json) list" where
  "sql_parse_response strip loads search msg text =
     (let response = clean_response strip text in
      case loads response of
        Inr (JDict result) \<Rightarrow>
          if truthy (dict_get result ''sql'') then
            (case dict_get result ''sql'' of
               JStr s \<Rightarrow>
                 Inr (AList.update ''success'' (JBool True)
                       (AList.update ''sql'' (JStr (strip s)) result))
             | _ \<Rightarrow> Inl AttributeError)
          else Inr (AList.update ''success'' (JBool False) result)
      | Inr _ \<Rightarrow> Inl AttributeError
      | Inl (JSONDecodeError e) \<Rightarrow>
          (case search response of
             Some sql_match \<Rightarrow>
               Inr [(''success'', JBool True),
                    (''sql'', JStr (strip sql_match)),
                    (''explanation'', JStr ''Extracted from response''),
                    (''tables_used'', JList [])]
           | None \<Rightarrow>
               Inr [(''success'', JBool False),
                    (''error'', JStr (''Failed to parse response: '' @ msg (JSONDecodeError e))),
                    (''sql'', JNull)])
      | Inl e \<Rightarrow> Inl e)"

text \<open>\<open>MongoQueryGenerator._parse_response\<close>: no pattern search, and the discriminator is
  \<open>query_type\<close>.\<close>

definition mongo_parse_response ::
  "(string \<Rightarrow> string) \<Rightarrow> (string \<Rightarrow> exn + json) \<Rightarrow> (exn \<Rightarrow> string) \<Rightarrow> string \<Rightarrow>
   exn + (string \<times> json) list" where
  "mongo_parse_response strip loads msg text =
     (let response = clean_response strip text in
      case loads response of
        Inr (JDict result) \<Rightarrow>
          if truthy (dict_get result ''query_type'')
          then Inr (AList.update ''success'' (JBool True) result)
          else Inr (AList.update ''success'' (JBool False) result)
      | Inr _ \<Rightarrow> Inl AttributeError
      | Inl (JSONDecodeError e) \<Rightarrow>
          Inr [(''success'', JBool False),
               (''error'', JStr (''Failed to parse response: '' @ msg (JSONDecodeError e)))]
      | Inl e \<Rightarrow> Inl e)"

section \<open>Effects: state, exceptions, collaborators\<close>

text \<open>
  The orchestrator and the generators are stateful and call collaborators that can fail.
  The mutable objects are fields of \<open>world\<close>: the agent's conversation history, the
  process-wide Langfuse client (\<open>_client\<close>, \<open>_init_failed\<close>), the two \<open>QueryTracer\<close>
  objects (the one of \<open>process_query\<close> and the one a generator creates), and the \<open>result\<close>
  dictionary that \<open>process_query\<close> fills in. \<open>tool_calls\<close> records every call of
  \<open>MCPManager.execute_tool\<close> with its arguments, in order.
\<close>

record tracer =
  root_span :: bool
  current_span :: bool

record world =
  conversation_history :: "json list"
  tool_calls :: "(string \<times> (string \<times> json) list) list"
  langfuse_client :: bool
  init_failed :: bool
  agent_tracer :: tracer
  generator_tracer :: tracer
  pq_result :: "(string \<times> json) list"

text \<open>The calls into the Langfuse SDK; each may raise.\<close>

datatype sdk_call =
    Construct
  | ClientStartSpan
  | SpanUpdate
  | SpanEnd
  | ClientFlush
  | SpanStartSpan
  | SpanScore
  | StartObservation
  | GenerationUpdate
  | GenerationEnd

text \<open>
  The collaborators, as the code sees them. \<open>py_upper\<close>, \<open>py_lower\<close> and \<open>py_strip\<close> are
  the string methods of the interpreter, \<open>recursion_room\<close> the number of nested calls of
  \<open>check_dict\<close> its recursion limit allows inside a generator. \<open>sdk\<close> tells for each SDK call the exception
  it raises, if any. \<open>create_message\<close> is \<open>client.messages.create\<close> applied to the prompt
  that \<open>_build_prompt\<close> assembles for the named store from the question and the history,
  followed by the read of \<open>response.content[0].text\<close>: it gives the answer text, or the
  exception raised on the way. \<open>read_usage\<close> is the later read of the token counts of
  \<open>response.usage\<close>. \<open>available_databases\<close> is the list the agent computed when it was
  constructed. \<open>sql_generator\<close> and
  \<open>mongo_generator\<close> are the lazy properties of the agent: they raise, or tell whether a
  generator exists. \<open>execute_tool\<close> is \<open>MCPManager.execute_tool\<close>. \<open>data_frame\<close> is the
  constructor \<open>pd.DataFrame\<close>. \<open>exn_str\<close> and \<open>py_str\<close> are Python's \<open>str()\<close> on an
  exception and on a value.
\<close>

record env =
  py_upper :: "string \<Rightarrow> string"
  py_lower :: "string \<Rightarrow> string"
  py_strip :: "string \<Rightarrow> string"
  recursion_room :: nat
  langfuse_enabled :: bool
  sdk :: "sdk_call \<Rightarrow> exn option"
  json_loads :: "string \<Rightarrow> exn + json"
  select_search :: "string \<Rightarrow> string option"
  create_message :: "string \<Rightarrow> string \<Rightarrow> json list \<Rightarrow> exn + string"
  read_usage :: "exn + unit"
  available_databases :: "string list"
  sql_generator :: "exn + bool"
  mongo_generator :: "exn + bool"
  execute_tool :: "string \<Rightarrow> (string \<times> json) list \<Rightarrow> exn + (string \<times> json) list"
  data_frame :: "json \<Rightarrow> exn + json"
  exn_str :: "exn \<Rightarrow> string"
  py_str :: "json \<Rightarrow> string"
  max_query_rows :: int

text \<open>A computation runs in a world and either returns a value or raises; the changes it
  made to the world before raising remain.\<close>

type_synonym 'a py = "world \<Rightarrow> (exn + 'a) \<times> world"

definition py_return :: "'a \<Rightarrow> 'a py" where
  "py_return x w = (Inr x, w)"

definition py_raise :: "exn \<Rightarrow> 'a py" where
  "py_raise e w = (Inl e, w)"

definition py_bind :: "'a py \<Rightarrow> ('a \<Rightarrow> 'b py) \<Rightarrow> 'b py" where
  "py_bind m f w = (case m w of (Inl e, w') \<Rightarrow> (Inl e, w') | (Inr x, w') \<Rightarrow> f x w')"

text \<open>\<open>try: m except Exception as e: handler e\<close>.\<close>

definition py_try :: "'a py \<Rightarrow> (exn \<Rightarrow> 'a py) \<Rightarrow> 'a py" where
  "py_try m handler w = (case m w of (Inl e, w') \<Rightarrow> handler e w' | (Inr x, w') \<Rightarrow> (Inr x, w'))"

text \<open>\<open>try: m finally: fin\<close>: \<open>fin\<close> runs in both cases; an exception of \<open>fin\<close> replaces
  the outcome of \<open>m\<close>.\<close>

definition py_finally :: "'a py \<Rightarrow> unit py \<Rightarrow> 'a py" where
  "py_finally m fin w =
     (case m w of
        (outcome, w') \<Rightarrow>
          (case fin w' of (Inl e, w'') \<Rightarrow> (Inl e, w'') | (Inr u, w'') \<Rightarrow> (outcome, w'')))"

definition py_lift :: "exn + 'a \<Rightarrow> 'a py" where
  "py_lift outcome w = (outcome, w)"

definition py_get :: "(world \<Rightarrow> 'a) \<Rightarrow> 'a py" where
  "py_get f w = (Inr (f w), w)"

definition py_modify :: "(world \<Rightarrow> world) \<Rightarrow> unit py" where
  "py_modify f w = (Inr (), f w)"

section \<open>The Langfuse client wrapper (\<open>observability/langfuse_client.py\<close>)\<close>

definition sdk_do :: "env \<Rightarrow> sdk_call \<Rightarrow> unit py" where
  "sdk_do E c = (case sdk E c of Some e \<Rightarrow> py_raise e | None \<Rightarrow> py_return ())"

text \<open>The property \<open>client\<close>; the value tells whether it is not \<open>None\<close>.\<close>

definition lf_client :: "env \<Rightarrow> bool py" where
  "lf_client E =
     py_bind (py_get (\<lambda>w. (init_failed w, langfuse_client w))) (\<lambda>(failed, loaded).
       if \<not> langfuse_enabled E \<or> failed then py_return False
       else if \<not> loaded then
         py_try
           (py_bind (sdk_do E Construct) (\<lambda>u.
            py_bind (py_modify (\<lambda>w. w\<lparr>langfuse_client := True\<rparr>)) (\<lambda>u.
            py_return True)))
           (\<lambda>e. py_bind (py_modify (\<lambda>w. w\<lparr>init_failed := True\<rparr>)) (\<lambda>u. py_return False))
       else py_return True)"

definition lf_is_enabled :: "env \<Rightarrow> bool py" where
  "lf_is_enabled E =
     py_bind (py_get init_failed) (\<lambda>failed.
       if \<not> langfuse_enabled E \<or> failed then py_return False else lf_client E)"

text \<open>A method call on the client: \<open>self.client.m(...)\<close> raises \<open>AttributeError\<close> when the
  property gives \<open>None\<close>.\<close>

definition lf_client_call :: "env \<Rightarrow> sdk_call \<Rightarrow> unit py" where
  "lf_client_call E c =
     py_bind (lf_client E) (\<lambda>present. if present then sdk_do E c else py_raise AttributeError)"

text \<open>\<open>start_span\<close>; the value tells whether a span (not \<open>None\<close>) is returned.\<close>

definition lf_start_span :: "env \<Rightarrow> bool py" where
  "lf_start_span E =
     py_bind (lf_is_enabled E) (\<lambda>enabled.
       if \<not> enabled then py_return False
       else py_try (py_bind (lf_client_call E ClientStartSpan) (\<lambda>u. py_return True))
                   (\<lambda>e. py_return False))"

text \<open>\<open>end_span(span, output)\<close>, given whether \<open>span\<close> and \<open>output\<close> are not \<open>None\<close>.\<close>

definition lf_end_span :: "env \<Rightarrow> bool \<Rightarrow> bool \<Rightarrow> unit py" where
  "lf_end_span E span_given output =
     (if span_given then
        py_try (py_bind (if output then sdk_do E SpanUpdate else py_return ()) (\<lambda>u.
                sdk_do E SpanEnd))
               (\<lambda>e. py_return ())
      else py_return ())"

definition lf_start_generation :: "env \<Rightarrow> bool \<Rightarrow> bool py" where
  "lf_start_generation E parent_span =
     (if \<not> parent_span then py_return False
      else py_try (py_bind (sdk_do E StartObservation) (\<lambda>u.
                   py_bind (sdk_do E GenerationUpdate) (\<lambda>u.
                   py_return True)))
                  (\<lambda>e. py_return False))"

text \<open>\<open>end_generation(generation, output, usage)\<close>; the tracer always passes an output, so
  \<open>update_data\<close> is not empty.\<close>

definition lf_end_generation :: "env \<Rightarrow> bool \<Rightarrow> unit py" where
  "lf_end_generation E generation =
     (if generation then
        py_try (py_bind (sdk_do E GenerationUpdate) (\<lambda>u. sdk_do E GenerationEnd))
               (\<lambda>e. py_return ())
      else py_return ())"

definition lf_flush :: "env \<Rightarrow> unit py" where
  "lf_flush E =
     py_bind (lf_is_enabled E) (\<lambda>enabled.
       if enabled then py_try (lf_client_call E ClientFlush) (\<lambda>e. py_return ())
       else py_return ())"

section \<open>\<open>QueryTracer\<close> (\<open>observability/tracing.py\<close>)\<close>

text \<open>Each method takes the tracer object and returns it as the method leaves it.\<close>

definition new_tracer :: tracer where
  "new_tracer = \<lparr>root_span = False, current_span = False\<rparr>"

definition start_trace :: "env \<Rightarrow> tracer \<Rightarrow> tracer py" where
  "start_trace E t =
     py_bind (lf_is_enabled E) (\<lambda>enabled.
       if enabled then py_bind (lf_start_span E) (\<lambda>sp. py_return (t\<lparr>root_span := sp\<rparr>))
       else py_return t)"

definition start_span :: "env \<Rightarrow> tracer \<Rightarrow> tracer py" where
  "start_span E t =
     py_bind (lf_is_enabled E) (\<lambda>enabled.
       if enabled \<and> root_span t then
         py_try (py_bind (sdk_do E SpanStartSpan) (\<lambda>u. py_return (t\<lparr>current_span := True\<rparr>)))
                (\<lambda>e. py_return t)
       else py_return t)"

text \<open>\<open>end_span(output)\<close>, given whether \<open>output\<close> is truthy.\<close>

definition end_span :: "env \<Rightarrow> bool \<Rightarrow> tracer \<Rightarrow> tracer py" where
  "end_span E output t =
     (if current_span t then
        py_bind (py_try (py_bind (if output then sdk_do E SpanUpdate else py_return ()) (\<lambda>u.
                         sdk_do E SpanEnd))
                        (\<lambda>e. py_return ())) (\<lambda>u.
        py_return (t\<lparr>current_span := False\<rparr>))
      else py_return t)"

definition log_generation :: "env \<Rightarrow> tracer \<Rightarrow> tracer py" where
  "log_generation E t =
     py_bind (lf_is_enabled E) (\<lambda>enabled.
       if enabled \<and> root_span t then
         py_bind (lf_start_generation E (root_span t)) (\<lambda>gen.
         py_bind (lf_end_generation E gen) (\<lambda>u.
         py_return t))
       else py_return t)"

definition log_score :: "env \<Rightarrow> tracer \<Rightarrow> tracer py" where
  "log_score E t =
     (if root_span t then
        py_bind (py_try (sdk_do E SpanScore) (\<lambda>e. py_return ())) (\<lambda>u. py_return t)
      else py_return t)"

definition end_trace :: "env \<Rightarrow> tracer \<Rightarrow> tracer py" where
  "end_trace E t =
     py_bind (if root_span t then lf_end_span E True False else py_return ()) (\<lambda>u.
     py_bind (lf_flush E) (\<lambda>u.
     py_return t))"

text \<open>Calling a method on the tracer of \<open>process_query\<close>, respectively of a generator.\<close>

definition on_agent_tracer :: "(tracer \<Rightarrow> tracer py) \<Rightarrow> unit py" where
  "on_agent_tracer method =
     py_bind (py_get agent_tracer) (\<lambda>t.
     py_bind (method t) (\<lambda>t'.
     py_modify (\<lambda>w. w\<lparr>agent_tracer := t'\<rparr>)))"

definition on_generator_tracer :: "(tracer \<Rightarrow> tracer py) \<Rightarrow> unit py" where
  "on_generator_tracer method =
     py_bind (py_get generator_tracer) (\<lambda>t.
     py_bind (method t) (\<lambda>t'.
     py_modify (\<lambda>w. w\<lparr>generator_tracer := t'\<rparr>)))"

section \<open>Computations that only touch the observability state\<close>

text \<open>The part of the world the functional behaviour depends on.\<close>

definition functional :: "world \<Rightarrow> json list \<times> (string \<times> (string \<times> json) list) list \<times> (string \<times> json) list" where
  "functional w = (conversation_history w, tool_calls w, pq_result w)"

text \<open>\<open>harmless m\<close>: \<open>m\<close> leaves the functional part of the world alone, but may raise.
  \<open>quiet m\<close>: moreover \<open>m\<close> never raises.\<close>

definition harmless :: "'a py \<Rightarrow> bool" where
  "harmless m = (\<forall>w. functional (snd (m w)) = functional w)"

definition quiet :: "'a py \<Rightarrow> bool" where
  "quiet m = (\<forall>w. (\<exists>x. fst (m w) = Inr x) \<and> functional (snd (m w)) = functional w)"

section \<open>The relational generator (\<open>SQLGenerator.generate\<close>)\<close>

text \<open>\<open>safety["reason"]\<close> as a value of the result dictionary.\<close>

definition reason_value :: "verdict \<Rightarrow> json" where
  "reason_value safety = (case reason safety of None \<Rightarrow> JNull | Some r \<Rightarrow> JStr r)"

text \<open>
  The method creates its own tracer, builds the prompt and opens a span; these three
  steps are outside the \<open>try\<close>. Inside it: the call of the model, \<open>_parse_response\<close>, the
  generation log (which reads \<open>response.usage\<close>), the safety check, and the closing of
  span and trace. Any exception inside is turned into a failure dictionary.
\<close>

definition sql_generate :: "env \<Rightarrow> string \<Rightarrow> json list \<Rightarrow> (string \<times> json) list py" where
  "sql_generate E user_query history =
     py_bind (py_modify (\<lambda>w. w\<lparr>generator_tracer := new_tracer\<rparr>)) (\<lambda>u.
     py_bind (on_generator_tracer (start_trace E)) (\<lambda>u.
     py_bind (on_generator_tracer (start_span E)) (\<lambda>u.
     py_try
       (py_bind (py_lift (create_message E ''postgresql'' user_query history)) (\<lambda>answer.
        py_bind (py_lift (sql_parse_response (py_strip E) (json_loads E) (select_search E) (exn_str E) answer))
          (\<lambda>parsed.
        py_bind (py_lift (read_usage E)) (\<lambda>u.
        py_bind (on_generator_tracer (log_generation E)) (\<lambda>u.
        py_bind
          (if truthy (dict_get parsed ''success'') \<and> truthy (dict_get parsed ''sql'') then
             py_bind (py_lift (validate_sql_safety (py_upper E) (dict_get parsed ''sql'')
                                 (map JStr blocked_sql_keywords))) (\<lambda>safety.
               if \<not> safe safety
               then py_return [(''success'', JBool False),
                               (''error'', reason_value safety),
                               (''sql'', JNull)]
               else py_return parsed)
           else py_return parsed) (\<lambda>checked.
        py_bind (on_generator_tracer (end_span E True)) (\<lambda>u.
        py_bind (on_generator_tracer (end_trace E)) (\<lambda>u.
        py_return checked))))))))
       (\<lambda>e.
        py_bind (on_generator_tracer (end_span E True)) (\<lambda>u.
        py_bind (on_generator_tracer (end_trace E)) (\<lambda>u.
        py_return [(''success'', JBool False),
                   (''error'', JStr (exn_str E e)),
                   (''sql'', JNull)]))))))"

section \<open>The document generator (\<open>MongoQueryGenerator.generate\<close>)\<close>

text \<open>The loop over the stages of a pipeline: it stops at the first stage whose verdict is
  unsafe and yields that verdict.\<close>

fun check_stages :: "nat \<Rightarrow> json list \<Rightarrow> exn + verdict option" where
  "check_stages room [] = Inr None"
| "check_stages room (stage # rest) =
     (case validate_mongo_safety room stage of
        Inl e \<Rightarrow> Inl e
      | Inr safety \<Rightarrow> if \<not> safe safety then Inr (Some safety) else check_stages room rest)"

text \<open>The safety step: \<open>query_to_check = result.get("filter", result.get("pipeline", {}))\<close>,
  checked stage by stage when it is a list and as one mapping otherwise.\<close>

definition mongo_safety_step ::
  "nat \<Rightarrow> (string \<times> json) list \<Rightarrow> exn + (string \<times> json) list" where
  "mongo_safety_step room parsed =
     (if truthy (dict_get parsed ''success'') then
        (let query_to_check =
               dict_get_default parsed ''filter'' (dict_get_default parsed ''pipeline'' (JDict []))
         in case query_to_check of
              JList stages \<Rightarrow>
                (case check_stages room stages of
                   Inl e \<Rightarrow> Inl e
                 | Inr (Some safety) \<Rightarrow>
                     Inr [(''success'', JBool False), (''error'', reason_value safety)]
                 | Inr None \<Rightarrow> Inr parsed)
            | _ \<Rightarrow>
                (case validate_mongo_safety room query_to_check of
                   Inl e \<Rightarrow> Inl e
                 | Inr safety \<Rightarrow>
                     if \<not> safe safety
                     then Inr [(''success'', JBool False), (''error'', reason_value safety)]
                     else Inr parsed))
      else Inr parsed)"

definition mongo_generate :: "env \<Rightarrow> string \<Rightarrow> json list \<Rightarrow> (string \<times> json) list py" where
  "mongo_generate E user_query history =
     py_bind (py_modify (\<lambda>w. w\<lparr>generator_tracer := new_tracer\<rparr>)) (\<lambda>u.
     py_bind (on_generator_tracer (start_trace E)) (\<lambda>u.
     py_bind (on_generator_tracer (start_span E)) (\<lambda>u.
     py_try
       (py_bind (py_lift (create_message E ''mongodb'' user_query history)) (\<lambda>answer.
        py_bind (py_lift (mongo_parse_response (py_strip E) (json_loads E) (exn_str E) answer)) (\<lambda>parsed.
        py_bind (py_lift (read_usage E)) (\<lambda>u.
        py_bind (on_generator_tracer (log_generation E)) (\<lambda>u.
        py_bind (py_lift (mongo_safety_step (recursion_room E) parsed)) (\<lambda>checked.
        py_bind (on_generator_tracer (end_span E True)) (\<lambda>u.
        py_bind (on_generator_tracer (end_trace E)) (\<lambda>u.
        py_return checked))))))))
       (\<lambda>e.
        py_bind (on_generator_tracer (end_span E True)) (\<lambda>u.
        py_bind (on_generator_tracer (end_trace E)) (\<lambda>u.
        py_return [(''success'', JBool False),
                   (''error'', JStr (exn_str E e))]))))))"

section \<open>The orchestrator (\<open>DatabaseAgent\<close>)\<close>

definition generate_postgres_query :: "env \<Rightarrow> string \<Rightarrow> (string \<times> json) list py" where
  "generate_postgres_query E user_query =
     py_bind (py_lift (sql_generator E)) (\<lambda>present.
       if \<not> present
       then py_return [(''success'', JBool False), (''error'', JStr ''PostgreSQL not available'')]
       else py_bind (py_get conversation_history) (\<lambda>history.
            sql_generate E user_query history))"

definition generate_mongodb_query :: "env \<Rightarrow> string \<Rightarrow> (string \<times> json) list py" where
  "generate_mongodb_query E user_query =
     py_bind (py_lift (mongo_generator E)) (\<lambda>present.
       if \<not> present
       then py_return [(''success'', JBool False), (''error'', JStr ''MongoDB not available'')]
       else py_bind (py_get conversation_history) (\<lambda>history.
            mongo_generate E user_query history))"

text \<open>\<open>self.mcp.execute_tool(name, arguments)\<close>, recorded in \<open>tool_calls\<close>.\<close>

definition call_tool :: "env \<Rightarrow> string \<Rightarrow> (string \<times> json) list \<Rightarrow> (string \<times> json) list py" where
  "call_tool E name arguments =
     py_bind (py_modify (\<lambda>w. w\<lparr>tool_calls := tool_calls w @ [(name, arguments)]\<rparr>)) (\<lambda>u.
     py_lift (execute_tool E name arguments))"

definition execute_query ::
  "env \<Rightarrow> string \<Rightarrow> (string \<times> json) list \<Rightarrow> (string \<times> json) list py" where
  "execute_query E db gen_result =
     (if db = ''postgresql'' then
        (let sql = dict_get gen_result ''sql'' in
         if \<not> truthy sql
         then py_return [(''success'', JBool False), (''error'', JStr ''No SQL query generated'')]
         else call_tool E ''postgres_query'' [(''sql'', sql)])
      else if db = ''mongodb'' then
        (let query_type = dict_get gen_result ''query_type'';
             collection = dict_get gen_result ''collection''
         in if \<not> truthy collection
            then py_return [(''success'', JBool False),
                            (''error'', JStr ''No collection specified'')]
            else if query_type = JStr ''find'' then
              call_tool E ''mongodb_find''
                [(''collection'', collection),
                 (''filter'', dict_get_default gen_result ''filter'' (JDict [])),
                 (''projection'', dict_get gen_result ''projection''),
                 (''sort'', dict_get gen_result ''sort''),
                 (''limit'', dict_get_default gen_result ''limit'' (JNum (max_query_rows E)))]
            else if query_type = JStr ''aggregate'' then
              call_tool E ''mongodb_aggregate''
                [(''collection'', collection),
                 (''pipeline'', dict_get_default gen_result ''pipeline'' (JList [])),
                 (''limit'', dict_get_default gen_result ''limit'' (JNum (max_query_rows E)))]
            else py_return [(''success'', JBool False),
                            (''error'', JStr (''Unknown query type: '' @ py_str E query_type))])
      else py_return [(''success'', JBool False),
                      (''error'', JStr (''Unknown database: '' @ db))])"

text \<open>\<open>result[key] = value\<close> on the result dictionary of \<open>process_query\<close>.\<close>

definition set_result :: "string \<Rightarrow> json \<Rightarrow> unit py" where
  "set_result key v = py_modify (\<lambda>w. w\<lparr>pq_result := AList.update key v (pq_result w)\<rparr>)"

definition history_append :: "json \<Rightarrow> unit py" where
  "history_append entry =
     py_modify (\<lambda>w. w\<lparr>conversation_history := conversation_history w @ [entry]\<rparr>)"

definition initial_result :: "string \<Rightarrow> (string \<times> json) list" where
  "initial_result user_query =
     [(''success'', JBool False),
      (''query'', JStr user_query),
      (''database'', JNull),
      (''generated_query'', JNull),
      (''data'', JList []),
      (''dataframe'', JNull),
      (''visualization'', JNull),
      (''explanation'', JNull),
      (''error'', JNull)]"

text \<open>
  The body of the \<open>try\<close> block of \<open>process_query\<close>. A \<open>return result\<close> inside it ends the
  body; the value returned is in every case the dictionary \<open>pq_result\<close>, read after the
  \<open>finally\<close> clause has run.
\<close>

definition process_query_body :: "env \<Rightarrow> string \<Rightarrow> unit py" where
  "process_query_body E user_query =
     py_bind (on_agent_tracer (start_span E)) (\<lambda>u.
     py_bind (py_return (fast_route (py_lower E) (available_databases E) user_query)) (\<lambda>routing.
     py_bind (set_result ''database'' (JStr (database routing))) (\<lambda>u.
     py_bind (on_agent_tracer (end_span E True)) (\<lambda>u.
     py_bind (on_agent_tracer (start_span E)) (\<lambda>u.
     py_bind (if database routing = ''postgresql''
              then generate_postgres_query E user_query
              else generate_mongodb_query E user_query) (\<lambda>gen_result.
     py_bind (on_agent_tracer (end_span E (gen_result \<noteq> []))) (\<lambda>u.
     if \<not> truthy (dict_get gen_result ''success'') then
       py_bind (set_result ''error''
                  (dict_get_default gen_result ''error'' (JStr ''Failed to generate query'')))
         (\<lambda>u.
       py_bind (on_agent_tracer (log_score E)) (\<lambda>u.
       on_agent_tracer (end_trace E)))
     else
       py_bind (set_result ''generated_query'' (JDict gen_result)) (\<lambda>u.
       py_bind (set_result ''explanation''
                  (dict_get_default gen_result ''explanation'' (JStr ''''))) (\<lambda>u.
       py_bind (on_agent_tracer (start_span E)) (\<lambda>u.
       py_bind (execute_query E (database routing) gen_result) (\<lambda>exec_result.
       py_bind (on_agent_tracer (end_span E True)) (\<lambda>u.
       if \<not> truthy (dict_get exec_result ''success'') then
         py_bind (set_result ''error''
                    (dict_get_default exec_result ''error'' (JStr ''Query execution failed'')))
           (\<lambda>u.
         py_bind (on_agent_tracer (log_score E)) (\<lambda>u.
         on_agent_tracer (end_trace E)))
       else
         py_bind (set_result ''success'' (JBool True)) (\<lambda>u.
         py_bind (set_result ''data'' (dict_get_default exec_result ''data'' (JList []))) (\<lambda>u.
         py_bind (set_result ''row_count''
                    (dict_get_default exec_result ''row_count'' (JNum 0))) (\<lambda>u.
         py_bind (py_get pq_result) (\<lambda>filled.
         py_bind (if truthy (dict_get filled ''data'')
                  then py_bind (py_lift (data_frame E (dict_get filled ''data''))) (\<lambda>df.
                       set_result ''dataframe'' df)
                  else py_return ()) (\<lambda>u.
         py_bind (history_append (JDict [(''role'', JStr ''user''),
                                         (''content'', JStr user_query)])) (\<lambda>u.
         py_bind (history_append
                    (JDict [(''role'', JStr ''assistant''),
                            (''content'',
                             JStr (''Returned '' @ py_str E (dict_get filled ''row_count'')
                                   @ '' rows''))])) (\<lambda>u.
         on_agent_tracer (log_score E))))))))))))))))))))"

text \<open>
  \<open>process_query(user_query, user_id)\<close>. The tracer is created and the trace started
  before the \<open>try\<close>; \<open>user_id\<close> is only stored in the tracer. The handler of
  \<open>except Exception\<close> records \<open>str(e)\<close>; the \<open>finally\<close> clause ends the trace.
\<close>

definition process_query :: "env \<Rightarrow> string \<Rightarrow> (string \<times> json) list py" where
  "process_query E user_query =
     py_bind (py_modify (\<lambda>w. w\<lparr>agent_tracer := new_tracer\<rparr>)) (\<lambda>u.
     py_bind (on_agent_tracer (start_trace E)) (\<lambda>u.
     py_bind (py_modify (\<lambda>w. w\<lparr>pq_result := initial_result user_query\<rparr>)) (\<lambda>u.
     py_bind (py_finally
                (py_try (process_query_body E user_query)
                        (\<lambda>e. py_bind (set_result ''error'' (JStr (exn_str E e))) (\<lambda>u.
                             on_agent_tracer (log_score E))))
                (on_agent_tracer (end_trace E))) (\<lambda>u.
     py_get pq_result))))"

text \<open>\<open>clear_history()\<close>.\<close>

definition clear_history :: "unit py" where
  "clear_history = py_modify (\<lambda>w. w\<lparr>conversation_history := []\<rparr>)"

text \<open>
  \<open>yields m v\<close>: \<open>m\<close> returns \<open>v\<close> in every world and leaves the functional part alone.
  \<open>spec m h c r Q\<close>: started in a world with history \<open>h\<close>, tool calls \<open>c\<close> and result
  dictionary \<open>r\<close>, the outcome of \<open>m\<close> and the history, tool calls and result dictionary
  it leaves satisfy \<open>Q\<close>.
\<close>

definition yields :: "'a py \<Rightarrow> 'a \<Rightarrow> bool" where
  "yields m v = (\<forall>w. fst (m w) = Inr v \<and> functional (snd (m w)) = functional w)"

definition spec ::
  "'a py \<Rightarrow> json list \<Rightarrow> (string \<times> (string \<times> json) list) list \<Rightarrow> (string \<times> json) list \<Rightarrow>
   (exn + 'a \<Rightarrow> json list \<Rightarrow> (string \<times> (string \<times> json) list) list \<Rightarrow> (string \<times> json) list \<Rightarrow> bool) \<Rightarrow> bool" where
  "spec m h c r Q =
     (\<forall>w. conversation_history w = h \<and> tool_calls w = c \<and> pq_result w = r \<longrightarrow>
          Q (fst (m w)) (conversation_history (snd (m w))) (tool_calls (snd (m w)))
            (pq_result (snd (m w))))"

section \<open>What the generators return\<close>

text \<open>
  The dictionary \<open>generate\<close> returns, as a function of what the collaborators answer: the
  steps of \<open>sql_generate\<close> and \<open>mongo_generate\<close> without the tracing.
\<close>

definition sql_failure :: "env \<Rightarrow> exn \<Rightarrow> (string \<times> json) list" where
  "sql_failure E e = [(''success'', JBool False), (''error'', JStr (exn_str E e)), (''sql'', JNull)]"

definition sql_safety_step ::
  "env \<Rightarrow> (string \<times> json) list \<Rightarrow> exn + (string \<times> json) list" where
  "sql_safety_step E parsed =
     (if truthy (dict_get parsed ''success'') \<and> truthy (dict_get parsed ''sql'') then
        (case validate_sql_safety (py_upper E) (dict_get parsed ''sql'') (map JStr blocked_sql_keywords) of
           Inl e \<Rightarrow> Inl e
         | Inr safety \<Rightarrow>
             if \<not> safe safety
             then Inr [(''success'', JBool False), (''error'', reason_value safety), (''sql'', JNull)]
             else Inr parsed)
      else Inr parsed)"

definition sql_generate_value :: "env \<Rightarrow> string \<Rightarrow> json list \<Rightarrow> (string \<times> json) list" where
  "sql_generate_value E user_query history =
     (case create_message E ''postgresql'' user_query history of
        Inl e \<Rightarrow> sql_failure E e
      | Inr answer \<Rightarrow>
          (case sql_parse_response (py_strip E) (json_loads E) (select_search E) (exn_str E) answer of
             Inl e \<Rightarrow> sql_failure E e
           | Inr parsed \<Rightarrow>
               (case read_usage E of
                  Inl e \<Rightarrow> sql_failure E e
                | Inr u \<Rightarrow>
                    (case sql_safety_step E parsed of
                       Inl e \<Rightarrow> sql_failure E e
                     | Inr checked \<Rightarrow> checked))))"

definition mongo_failure :: "env \<Rightarrow> exn \<Rightarrow> (string \<times> json) list" where
  "mongo_failure E e = [(''success'', JBool False), (''error'', JStr (exn_str E e))]"

definition mongo_generate_value :: "env \<Rightarrow> string \<Rightarrow> json list \<Rightarrow> (string \<times> json) list" where
  "mongo_generate_value E user_query history =
     (case create_message E ''mongodb'' user_query history of
        Inl e \<Rightarrow> mongo_failure E e
      | Inr answer \<Rightarrow>
          (case mongo_parse_response (py_strip E) (json_loads E) (exn_str E) answer of
             Inl e \<Rightarrow> mongo_failure E e
           | Inr parsed \<Rightarrow>
               (case read_usage E of
                  Inl e \<Rightarrow> mongo_failure E e
                | Inr u \<Rightarrow>
                    (case mongo_safety_step (recursion_room E) parsed of
                       Inl e \<Rightarrow> mongo_failure E e
                     | Inr checked \<Rightarrow> checked))))"

section \<open>What \<open>process_query\<close> returns\<close>

text \<open>
  The functional content of \<open>process_query\<close>, as a function of the collaborators and of
  the history at the time of the call: the returned dictionary, the history afterwards,
  and the tool calls made. \<open>generated\<close> is the outcome of the generation step;
  \<open>execute_plan\<close> tells whether \<open>_execute_query\<close> answers by itself or which tool it
  calls with which arguments.
\<close>

definition generated :: "env \<Rightarrow> string \<Rightarrow> string \<Rightarrow> json list \<Rightarrow> exn + (string \<times> json) list" where
  "generated E db user_query history =
     (if db = ''postgresql'' then
        (case sql_generator E of
           Inl e \<Rightarrow> Inl e
         | Inr present \<Rightarrow>
             if \<not> present
             then Inr [(''success'', JBool False), (''error'', JStr ''PostgreSQL not available'')]
             else Inr (sql_generate_value E user_query history))
      else
        (case mongo_generator E of
           Inl e \<Rightarrow> Inl e
         | Inr present \<Rightarrow>
             if \<not> present
             then Inr [(''success'', JBool False), (''error'', JStr ''MongoDB not available'')]
             else Inr (mongo_generate_value E user_query history)))"

definition execute_plan ::
  "env \<Rightarrow> string \<Rightarrow> (string \<times> json) list \<Rightarrow>
   (string \<times> json) list + string \<times> (string \<times> json) list" where
  "execute_plan E db gen_result =
     (if db = ''postgresql'' then
        (if \<not> truthy (dict_get gen_result ''sql'')
         then Inl [(''success'', JBool False), (''error'', JStr ''No SQL query generated'')]
         else Inr (''postgres_query'', [(''sql'', dict_get gen_result ''sql'')]))
      else if db = ''mongodb'' then
        (if \<not> truthy (dict_get gen_result ''collection'')
         then Inl [(''success'', JBool False), (''error'', JStr ''No collection specified'')]
         else if dict_get gen_result ''query_type'' = JStr ''find'' then
           Inr (''mongodb_find'',
                [(''collection'', dict_get gen_result ''collection''),
                 (''filter'', dict_get_default gen_result ''filter'' (JDict [])),
                 (''projection'', dict_get gen_result ''projection''),
                 (''sort'', dict_get gen_result ''sort''),
                 (''limit'', dict_get_default gen_result ''limit'' (JNum (max_query_rows E)))])
         else if dict_get gen_result ''query_type'' = JStr ''aggregate'' then
           Inr (''mongodb_aggregate'',
                [(''collection'', dict_get gen_result ''collection''),
                 (''pipeline'', dict_get_default gen_result ''pipeline'' (JList [])),
                 (''limit'', dict_get_default gen_result ''limit'' (JNum (max_query_rows E)))])
         else Inl [(''success'', JBool False),
                   (''error'', JStr (''Unknown query type: ''
                                     @ py_str E (dict_get gen_result ''query_type'')))])
      else Inl [(''success'', JBool False), (''error'', JStr (''Unknown database: '' @ db))])"

definition caught :: "env \<Rightarrow> exn \<Rightarrow> (string \<times> json) list \<Rightarrow> (string \<times> json) list" where
  "caught E e r = AList.update ''error'' (JStr (exn_str E e)) r"

definition history_entries :: "env \<Rightarrow> string \<Rightarrow> json \<Rightarrow> json list" where
  "history_entries E user_query row_count =
     [JDict [(''role'', JStr ''user''), (''content'', JStr user_query)],
      JDict [(''role'', JStr ''assistant''),
             (''content'', JStr (''Returned '' @ py_str E row_count @ '' rows''))]]"

definition finish ::
  "env \<Rightarrow> string \<Rightarrow> json list \<Rightarrow> (string \<times> json) list \<Rightarrow>
   (string \<times> (string \<times> json) list) list \<Rightarrow> exn + (string \<times> json) list \<Rightarrow>
   (string \<times> json) list \<times> json list \<times> (string \<times> (string \<times> json) list) list" where
  "finish E user_query history r1 calls outcome =
     (case outcome of
        Inl e \<Rightarrow> (caught E e r1, history, calls)
      | Inr exec_result \<Rightarrow>
          if \<not> truthy (dict_get exec_result ''success'') then
            (AList.update ''error''
               (dict_get_default exec_result ''error'' (JStr ''Query execution failed'')) r1,
             history, calls)
          else
            (let r2 = AList.update ''row_count''
                        (dict_get_default exec_result ''row_count'' (JNum 0))
                        (AList.update ''data''
                           (dict_get_default exec_result ''data'' (JList []))
                           (AList.update ''success'' (JBool True) r1));
                 history' = history @ history_entries E user_query (dict_get r2 ''row_count'')
             in if truthy (dict_get r2 ''data'') then
                  (case data_frame E (dict_get r2 ''data'') of
                     Inl e \<Rightarrow> (caught E e r2, history, calls)
                   | Inr df \<Rightarrow> (AList.update ''dataframe'' df r2, history', calls))
                else (r2, history', calls)))"

definition process_query_summary ::
  "env \<Rightarrow> string \<Rightarrow> json list \<Rightarrow>
   (string \<times> json) list \<times> json list \<times> (string \<times> (string \<times> json) list) list" where
  "process_query_summary E user_query history =
     (let db = database (fast_route (py_lower E) (available_databases E) user_query);
          r0 = AList.update ''database'' (JStr db) (initial_result user_query)
      in case generated E db user_query history of
           Inl e \<Rightarrow> (caught E e r0, history, [])
         | Inr gen_result \<Rightarrow>
             if \<not> truthy (dict_get gen_result ''success'') then
               (AList.update ''error''
                  (dict_get_default gen_result ''error'' (JStr ''Failed to generate query'')) r0,
                history, [])
             else
               (let r1 = AList.update ''explanation''
                           (dict_get_default gen_result ''explanation'' (JStr ''''))
                           (AList.update ''generated_query'' (JDict gen_result) r0)
                in case execute_plan E db gen_result of
                     Inl answer \<Rightarrow> finish E user_query history r1 [] (Inr answer)
                   | Inr (name, arguments) \<Rightarrow>
                       finish E user_query history r1 [(name, arguments)]
                         (execute_tool E name arguments)))"

text \<open>
  The names used in the statements about \<open>process_query\<close>: the store the router picks, the
  outcome of \<open>_execute_query\<close> (its own answer, or what the tool it calls answers or
  raises), the tool calls it makes, and the result dictionary after the routing step and
  after the generation step.
\<close>

definition routed :: "env \<Rightarrow> string \<Rightarrow> string" where
  "routed E user_query = database (fast_route (py_lower E) (available_databases E) user_query)"

definition executed ::
  "env \<Rightarrow> string \<Rightarrow> (string \<times> json) list \<Rightarrow> exn + (string \<times> json) list" where
  "executed E db gen_result =
     (case execute_plan E db gen_result of
        Inl answer \<Rightarrow> Inr answer
      | Inr (name, arguments) \<Rightarrow> execute_tool E name arguments)"

definition dispatched ::
  "env \<Rightarrow> string \<Rightarrow> (string \<times> json) list \<Rightarrow> (string \<times> (string \<times> json) list) list" where
  "dispatched E db gen_result =
     (case execute_plan E db gen_result of Inl answer \<Rightarrow> [] | Inr call \<Rightarrow> [call])"

definition routed_result :: "env \<Rightarrow> string \<Rightarrow> (string \<times> json) list" where
  "routed_result E user_query =
     AList.update ''database'' (JStr (routed E user_query)) (initial_result user_query)"

definition generated_result ::
  "env \<Rightarrow> string \<Rightarrow> (string \<times> json) list \<Rightarrow> (string \<times> json) list" where
  "generated_result E user_query gen_result =
     AList.update ''explanation'' (dict_get_default gen_result ''explanation'' (JStr ''''))
       (AList.update ''generated_query'' (JDict gen_result) (routed_result E user_query))"

section \<open>Test doubles\<close>

text \<open>
  An environment for examples: the model answers \<open>answer\<close> (a text, or an exception), the
  decoder gives the mapping \<open>decoded\<close> for that text and fails on any other, and \<open>tool\<close>
  stands for \<open>MCPManager.execute_tool\<close>. Both stores are available, tracing is off, and
  the string methods are those of ASCII text. \<open>start_world\<close> is a fresh agent.
\<close>

definition test_env ::
  "exn + string \<Rightarrow> (string \<times> json) list \<Rightarrow>
   (string \<Rightarrow> (string \<times> json) list \<Rightarrow> exn + (string \<times> json) list) \<Rightarrow> env" where
  "test_env answer decoded tool =
     \<lparr>py_upper = ascii_upper, py_lower = ascii_lower, py_strip = ascii_strip,
      recursion_room = 900, langfuse_enabled = False, sdk = (\<lambda>c. None),
      json_loads = (\<lambda>t. if Inr t = answer then Inr (JDict decoded)
                          else Inl (JSONDecodeError ''Expecting value'')),
      select_search = (\<lambda>t. None),
      create_message = (\<lambda>db q h. answer),
      read_usage = Inr (),
      available_databases = [''postgresql'', ''mongodb''],
      sql_generator = Inr True, mongo_generator = Inr True,
      execute_tool = tool,
      data_frame = (\<lambda>d. Inr (JStr ''DataFrame'')),
      exn_str = (\<lambda>e. ''error''),
      py_str = (\<lambda>v. if v = JNum 1 then ''1'' else ''?''),
      max_query_rows = 1000\<rparr>"

definition start_world :: world where
  "start_world =
     \<lparr>conversation_history = [], tool_calls = [], langfuse_client = False,
      init_failed = False, agent_tracer = new_tracer, generator_tracer = new_tracer,
      pq_result = []\<rparr>"

definition tool_raises :: "string \<Rightarrow> (string \<times> json) list \<Rightarrow> exn + (string \<times> json) list" where
  "tool_raises name arguments = Inl (ExternalError ''connection refused'')"

definition tool_one_row :: "string \<Rightarrow> (string \<times> json) list \<Rightarrow> exn + (string \<times> json) list" where
  "tool_one_row name arguments =
     Inr [(''success'', JBool True),
          (''data'', JList [JDict [(''n'', JNum 1)]]),
          (''row_count'', JNum 1)]"

definition tool_fails :: "string \<Rightarrow> (string \<times> json) list \<Rightarrow> exn + (string \<times> json) list" where
  "tool_fails name arguments =
     Inr [(''success'', JBool False), (''error'', JStr ''relation does not exist''),
          (''data'', JList []), (''row_count'', JNum 0)]"

section \<open>Facts about strings\<close>

lemma str_in_sublist: "str_in needle hay = sublist needle hay"
  by (induction hay) (simp_all add: sublist_Cons_right)

lemma sublist_map_upper:
  "sublist (ascii_upper kw) (ascii_upper text) = contains_ignoring_case ascii_upper text kw"
proof
  assume "sublist (ascii_upper kw) (ascii_upper text)"
  then obtain ps ss where "map upper_char text = ps @ map upper_char kw @ ss"
    by (auto simp: sublist_def ascii_upper_def)
  then obtain a vs where 1: "text = a @ vs" "map upper_char vs = map upper_char kw @ ss"
    by (metis map_eq_append_conv)
  then obtain b c where 2: "vs = b @ c" "map upper_char b = map upper_char kw"
    by (metis map_eq_append_conv)
  from 1 2 have "text = a @ b @ c" "map upper_char b = map upper_char kw"
    by simp_all
  then show "contains_ignoring_case ascii_upper text kw"
    unfolding contains_ignoring_case_def ascii_upper_def sublist_def by blast
next
  assume "contains_ignoring_case ascii_upper text kw"
  then obtain piece ps ss where "text = ps @ piece @ ss" "ascii_upper piece = ascii_upper kw"
    by (auto simp: contains_ignoring_case_def sublist_def)
  then have "ascii_upper text = ascii_upper ps @ ascii_upper kw @ ascii_upper ss"
    by (simp add: ascii_upper_def)
  then show "sublist (ascii_upper kw) (ascii_upper text)"
    unfolding sublist_def by blast
qed

lemma upper_char_ascii: "((of_char (upper_char c) :: nat) < 128) = ((of_char c :: nat) < 128)"
  by (auto simp: upper_char_def Let_def)

lemma ascii_text_upper: "ascii_text (ascii_upper s) = ascii_text s"
  by (induction s) (simp_all add: ascii_text_def ascii_upper_def upper_char_ascii)

lemma ascii_text_append [simp]: "ascii_text (a @ b) = (ascii_text a \<and> ascii_text b)"
  by (simp add: ascii_text_def)

lemma ascii_upper_append [simp]: "ascii_upper (a @ b) = ascii_upper a @ ascii_upper b"
  by (simp add: ascii_upper_def)

lemma upper_cases_ascii_ascii_upper: "upper_cases_ascii ascii_upper"
  by (simp add: upper_cases_ascii_def ascii_upper_def)

lemma upper_cases_ascii_text:
  assumes "upper_cases_ascii up" "ascii_text s"
  shows "up s = ascii_upper s"
proof (cases "s = []")
  case True
  with assms(1) show ?thesis
    by (simp add: upper_cases_ascii_def ascii_upper_def)
next
  case False
  with assms have "up ([] @ s @ []) = up [] @ ascii_upper s @ up []"
    unfolding upper_cases_ascii_def by blast
  with assms(1) show ?thesis
    by (simp add: upper_cases_ascii_def)
qed

text \<open>A keyword of ASCII characters that some piece of the text spells up to letter case
  occurs in the upper-cased text.\<close>

lemma contains_ignoring_case_upper:
  assumes up: "upper_cases_ascii up" and kw: "ascii_text kw"
    and c: "contains_ignoring_case ascii_upper text kw"
  shows "sublist (up kw) (up text)"
proof -
  from c obtain piece ps ss where t: "text = ps @ piece @ ss"
      and p: "ascii_upper piece = ascii_upper kw"
    by (auto simp: contains_ignoring_case_def sublist_def)
  from p kw have ap: "ascii_text piece"
    by (metis ascii_text_upper)
  have kwu: "up kw = ascii_upper kw"
    using up kw by (rule upper_cases_ascii_text)
  show ?thesis
  proof (cases "piece = []")
    case True
    with p have "ascii_upper kw = []"
      by (simp add: ascii_upper_def)
    with kwu show ?thesis
      by simp
  next
    case False
    with up ap have "up (ps @ piece @ ss) = up ps @ ascii_upper piece @ up ss"
      unfolding upper_cases_ascii_def by blast
    with t p kwu show ?thesis
      unfolding sublist_def by metis
  qed
qed

lemma blocked_loop_strings:
  "blocked_loop up su (map JStr kws) = Inr (find (\<lambda>kw. str_in (up kw) su) kws)"
  by (induction kws) simp_all

lemma validate_sql_safety_strings:
  "validate_sql_safety up (JStr s) (map JStr kws) =
     Inr (case find (\<lambda>kw. str_in (up kw) (up s)) kws of
            Some keyword \<Rightarrow>
              \<lparr>safe = False, reason = Some (''Query contains blocked keyword: '' @ keyword)\<rparr>
          | None \<Rightarrow>
              if str_count s (CHR '';'') > 1
              then \<lparr>safe = False, reason = Some ''Multiple SQL statements not allowed''\<rparr>
              else \<lparr>safe = True, reason = None\<rparr>)"
  by (simp add: validate_sql_safety_def blocked_loop_strings split: option.split)

lemma validate_sql_safety_unsafe_iff:
  "\<exists>v. validate_sql_safety up (JStr s) (map JStr kws) = Inr v \<and>
       ((\<not> safe v) =
        ((\<exists>kw \<in> set kws. sublist (up kw) (up s)) \<or> 2 \<le> str_count s (CHR '';'')))"
proof (cases "find (\<lambda>kw. str_in (up kw) (up s)) kws")
  case None
  then have "\<not> (\<exists>kw \<in> set kws. sublist (up kw) (up s))"
    by (auto simp: find_None_iff str_in_sublist)
  with None show ?thesis
    by (auto simp: validate_sql_safety_strings)
next
  case (Some keyword)
  then have "\<exists>kw \<in> set kws. sublist (up kw) (up s)"
    by (auto simp: find_Some_iff str_in_sublist)
  with Some show ?thesis
    by (auto simp: validate_sql_safety_strings)
qed

text \<open>The denylist rejects what spells an entry, in any text; in a text of ASCII characters
  it rejects nothing else.\<close>

lemma validate_sql_safety_ascii:
  assumes up: "upper_cases_ascii up" and kws: "\<forall>kw \<in> set kws. ascii_text kw"
  shows "\<exists>v. validate_sql_safety up (JStr s) (map JStr kws) = Inr v \<and>
       (((\<exists>kw \<in> set kws. contains_ignoring_case ascii_upper s kw) \<or> 2 \<le> str_count s (CHR '';''))
          \<longrightarrow> \<not> safe v) \<and>
       (ascii_text s \<longrightarrow>
          (\<not> safe v) =
          ((\<exists>kw \<in> set kws. contains_ignoring_case ascii_upper s kw) \<or> 2 \<le> str_count s (CHR '';'')))"
proof -
  from validate_sql_safety_unsafe_iff [of up s kws] obtain v where
    v: "validate_sql_safety up (JStr s) (map JStr kws) = Inr v"
    and iff: "(\<not> safe v) =
        ((\<exists>kw \<in> set kws. sublist (up kw) (up s)) \<or> 2 \<le> str_count s (CHR '';''))"
    by blast
  have 1: "sublist (up kw) (up s)"
    if "kw \<in> set kws" "contains_ignoring_case ascii_upper s kw" for kw
    using that kws up by (auto intro: contains_ignoring_case_upper)
  have 2: "contains_ignoring_case ascii_upper s kw"
    if "kw \<in> set kws" "sublist (up kw) (up s)" "ascii_text s" for kw
  proof -
    from that kws up have "up kw = ascii_upper kw" "up s = ascii_upper s"
      by (auto intro: upper_cases_ascii_text)
    with that(2) show ?thesis
      by (simp add: sublist_map_upper)
  qed
  from v iff 1 2 show ?thesis
    by blast
qed

lemma ascii_upper_DROP_TABLE: "ascii_upper ''DROP TABLE'' = ''DROP TABLE''"
  by code_simp

lemma ascii_upper_DROP: "ascii_upper ''DROP'' = ''DROP''"
  by code_simp

lemma drop_table_contains_drop:
  assumes "contains_ignoring_case ascii_upper sql ''DROP TABLE''"
  shows "contains_ignoring_case ascii_upper sql ''DROP''"
proof -
  from assms have "sublist ''DROP TABLE'' (ascii_upper sql)"
    by (simp add: sublist_map_upper [symmetric] ascii_upper_DROP_TABLE)
  moreover have "sublist ''DROP'' ''DROP TABLE''"
    by (rule prefix_imp_sublist) simp
  ultimately have "sublist ''DROP'' (ascii_upper sql)"
    by (rule sublist_order.order_trans [rotated])
  then show ?thesis
    by (simp add: sublist_map_upper [symmetric] ascii_upper_DROP)
qed

lemma blocked_sql_keywords_ascii: "\<forall>kw \<in> set blocked_sql_keywords. ascii_text kw"
  by code_simp

lemma validate_sql_safety_select_example:
  "validate_sql_safety ascii_upper
     (JStr ''SELECT * FROM customers WHERE city = 'New York' LIMIT 100'')
     (map JStr blocked_sql_keywords) = Inr \<lparr>safe = True, reason = None\<rparr>"
  by code_simp

lemma select_example_ascii:
  "ascii_text ''SELECT * FROM customers WHERE city = 'New York' LIMIT 100''"
  by code_simp

text \<open>The pieces of a text, listed.\<close>

lemma sublist_pieces: "sublist p xs = (p \<in> set (concat (map prefixes (suffixes xs))))"
  by (auto simp: sublist_altdef' in_set_prefixes in_set_suffixes)

section \<open>Claims about the relational validator\<close>

text \<open>
  C2, as stated, fails outside ASCII. \<open>str.upper\<close> turns the character U+1E97 into \<open>T\<close>
  followed by a combining mark, so the upper-cased form of the text \<open>inser\<close> followed by
  U+1E97 begins with \<open>INSERT\<close>: the validator answers unsafe, although no piece of the text
  equals an entry of the denylist once both are upper-cased, and the text has no \<open>;\<close>.
\<close>

theorem validate_sql_safety_rejects_more_counterexample:
  "validate_sql_safety upper_t_diaeresis
     (JStr (''inser'' @ [CHR 0xE1, CHR 0xBA, CHR 0x97])) (map JStr blocked_sql_keywords)
     = Inr \<lparr>safe = False, reason = Some ''Query contains blocked keyword: INSERT''\<rparr>
   \<and> \<not> (\<exists>kw \<in> set blocked_sql_keywords.
           contains_ignoring_case upper_t_diaeresis
             (''inser'' @ [CHR 0xE1, CHR 0xBA, CHR 0x97]) kw)
   \<and> str_count (''inser'' @ [CHR 0xE1, CHR 0xBA, CHR 0x97]) (CHR '';'') = 0"
proof (intro conjI)
  let ?t = "''inser'' @ [CHR 0xE1, CHR 0xBA, CHR 0x97]"
  show "validate_sql_safety upper_t_diaeresis (JStr ?t) (map JStr blocked_sql_keywords)
     = Inr \<lparr>safe = False, reason = Some ''Query contains blocked keyword: INSERT''\<rparr>"
    by code_simp
  have k: "map upper_t_diaeresis blocked_sql_keywords = blocked_sql_keywords"
    by code_simp
  have n: "\<not> list_ex (\<lambda>p. List.member blocked_sql_keywords (upper_t_diaeresis p))
                      (concat (map prefixes (suffixes ?t)))"
    by code_simp
  show "\<not> (\<exists>kw \<in> set blocked_sql_keywords. contains_ignoring_case upper_t_diaeresis ?t kw)"
  proof
    assume "\<exists>kw \<in> set blocked_sql_keywords. contains_ignoring_case upper_t_diaeresis ?t kw"
    then obtain kw piece where kw: "kw \<in> set blocked_sql_keywords"
        and p: "piece \<in> set (concat (map prefixes (suffixes ?t)))"
        and e: "upper_t_diaeresis piece = upper_t_diaeresis kw"
      unfolding contains_ignoring_case_def sublist_pieces by blast
    from kw have "upper_t_diaeresis kw \<in> set (map upper_t_diaeresis blocked_sql_keywords)"
      by simp
    with k e have "upper_t_diaeresis piece \<in> set blocked_sql_keywords"
      by simp
    with p n show False
      by (auto simp: list_ex_iff)
  qed
  show "str_count ?t (CHR '';'') = 0"
    by code_simp
qed

text \<open>
  C2, amended. \<open>validate_sql_safety\<close> answers unsafe exactly when the upper-cased form of
  some keyword occurs in the upper-cased text (both by \<open>str.upper\<close>), or the text has two
  or more \<open>;\<close> characters. Since \<open>str.upper\<close> upper-cases ASCII pieces in place, and for a
  denylist of ASCII words such as the configured one: every text that contains an entry
  as a substring up to letter case, or has two or more \<open>;\<close>, is rejected; a text of ASCII
  characters is rejected in these cases only (outside ASCII, upper-casing can produce a
  keyword that no piece of the text spells). In particular every text containing
  \<open>DROP TABLE\<close> in any mix of cases and every text with more than one \<open>;\<close> is rejected,
  and \<open>SELECT * FROM customers WHERE city = 'New York' LIMIT 100\<close> is accepted.
\<close>

theorem validate_sql_safety_unsafe_exactly:
  fixes sql :: string and kws :: "string list"
  shows
    "(\<exists>v. validate_sql_safety up (JStr sql) (map JStr kws) = Inr v \<and>
          ((\<not> safe v) =
           ((\<exists>kw \<in> set kws. sublist (up kw) (up sql)) \<or> 2 \<le> str_count sql (CHR '';''))))
     \<and> (upper_cases_ascii up \<and> (\<forall>kw \<in> set kws. ascii_text kw) \<longrightarrow>
          (\<exists>v. validate_sql_safety up (JStr sql) (map JStr kws) = Inr v \<and>
             (((\<exists>kw \<in> set kws. contains_ignoring_case ascii_upper sql kw)
                 \<or> 2 \<le> str_count sql (CHR '';'')) \<longrightarrow> \<not> safe v) \<and>
             (ascii_text sql \<longrightarrow>
                (\<not> safe v) =
                ((\<exists>kw \<in> set kws. contains_ignoring_case ascii_upper sql kw)
                   \<or> 2 \<le> str_count sql (CHR '';'')))))
     \<and> (upper_cases_ascii up \<and> contains_ignoring_case ascii_upper sql ''DROP TABLE'' \<longrightarrow>
          (\<exists>v. validate_sql_safety up (JStr sql) (map JStr blocked_sql_keywords) = Inr v
                \<and> \<not> safe v))
     \<and> (1 < str_count sql (CHR '';'') \<longrightarrow>
          (\<exists>v. validate_sql_safety up (JStr sql) (map JStr blocked_sql_keywords) = Inr v
                \<and> \<not> safe v))
     \<and> (upper_cases_ascii up \<longrightarrow>
          validate_sql_safety up
            (JStr ''SELECT * FROM customers WHERE city = 'New York' LIMIT 100'')
            (map JStr blocked_sql_keywords) = Inr \<lparr>safe = True, reason = None\<rparr>)"
proof (intro conjI impI)
  show "\<exists>v. validate_sql_safety up (JStr sql) (map JStr kws) = Inr v \<and>
          ((\<not> safe v) =
           ((\<exists>kw \<in> set kws. sublist (up kw) (up sql)) \<or> 2 \<le> str_count sql (CHR '';'')))"
    by (rule validate_sql_safety_unsafe_iff)
next
  assume "upper_cases_ascii up \<and> (\<forall>kw \<in> set kws. ascii_text kw)"
  then show "\<exists>v. validate_sql_safety up (JStr sql) (map JStr kws) = Inr v \<and>
             (((\<exists>kw \<in> set kws. contains_ignoring_case ascii_upper sql kw)
                 \<or> 2 \<le> str_count sql (CHR '';'')) \<longrightarrow> \<not> safe v) \<and>
             (ascii_text sql \<longrightarrow>
                (\<not> safe v) =
                ((\<exists>kw \<in> set kws. contains_ignoring_case ascii_upper sql kw)
                   \<or> 2 \<le> str_count sql (CHR '';'')))"
    using validate_sql_safety_ascii [of up kws sql] by blast
next
  assume a: "upper_cases_ascii up \<and> contains_ignoring_case ascii_upper sql ''DROP TABLE''"
  then have "contains_ignoring_case ascii_upper sql ''DROP''"
    by (blast intro: drop_table_contains_drop)
  moreover have "''DROP'' \<in> set blocked_sql_keywords"
    by (simp add: blocked_sql_keywords_def)
  ultimately have "\<exists>kw \<in> set blocked_sql_keywords. contains_ignoring_case ascii_upper sql kw"
    by blast
  with a validate_sql_safety_ascii [of up blocked_sql_keywords sql] blocked_sql_keywords_ascii
  show "\<exists>v. validate_sql_safety up (JStr sql) (map JStr blocked_sql_keywords) = Inr v \<and> \<not> safe v"
    by blast
next
  assume "1 < str_count sql (CHR '';'')"
  then have "2 \<le> str_count sql (CHR '';'')"
    by simp
  with validate_sql_safety_unsafe_iff [of up sql blocked_sql_keywords]
  show "\<exists>v. validate_sql_safety up (JStr sql) (map JStr blocked_sql_keywords) = Inr v \<and> \<not> safe v"
    by blast
next
  assume up: "upper_cases_ascii up"
  let ?q = "''SELECT * FROM customers WHERE city = 'New York' LIMIT 100''"
  have s: "up ?q = ascii_upper ?q"
    using up select_example_ascii by (rule upper_cases_ascii_text)
  have k: "up kw = ascii_upper kw" if "kw \<in> set blocked_sql_keywords" for kw
    using up blocked_sql_keywords_ascii that by (blast intro: upper_cases_ascii_text)
  then have "find (\<lambda>kw. str_in (up kw) (up ?q)) blocked_sql_keywords
      = find (\<lambda>kw. str_in (ascii_upper kw) (ascii_upper ?q)) blocked_sql_keywords"
    using s by (intro find_cong) simp_all
  then have "validate_sql_safety up (JStr ?q) (map JStr blocked_sql_keywords)
      = validate_sql_safety ascii_upper (JStr ?q) (map JStr blocked_sql_keywords)"
    by (simp only: validate_sql_safety_strings)
  then show "validate_sql_safety up (JStr ?q) (map JStr blocked_sql_keywords)
      = Inr \<lparr>safe = True, reason = None\<rparr>"
    by (simp only: validate_sql_safety_select_example)
qed

theorem validate_sql_safety_unsafe_exactly_witness:
  "upper_cases_ascii ascii_upper
   \<and> contains_ignoring_case ascii_upper ''select 1; Drop Table orders;'' ''DROP TABLE''
   \<and> 1 < str_count ''select 1; Drop Table orders;'' (CHR '';'')
   \<and> (\<exists>v. validate_sql_safety ascii_upper (JStr ''select 1; Drop Table orders;'')
              (map JStr blocked_sql_keywords) = Inr v \<and> \<not> safe v)
   \<and> validate_sql_safety ascii_upper
        (JStr ''SELECT * FROM customers WHERE city = 'New York' LIMIT 100'')
        (map JStr blocked_sql_keywords) = Inr \<lparr>safe = True, reason = None\<rparr>"
proof -
  have "sublist (ascii_upper ''DROP TABLE'') (ascii_upper ''select 1; Drop Table orders;'')"
    by code_simp
  then have h1: "contains_ignoring_case ascii_upper ''select 1; Drop Table orders;'' ''DROP TABLE''"
    by (simp only: sublist_map_upper)
  have h2: "1 < str_count ''select 1; Drop Table orders;'' (CHR '';'')"
    by code_simp
  note h3 = upper_cases_ascii_ascii_upper
  from h1 h2 h3
    validate_sql_safety_unsafe_exactly
      [of ascii_upper "''select 1; Drop Table orders;''" "[]"]
  show ?thesis
    by blast
qed

section \<open>Facts about the document validators\<close>

lemma walk_result_simps [simp]:
  "walk_result ops keys (Inl e) = (e = RecursionError)"
  "walk_result ops keys (Inr None) = (set keys \<inter> set ops = {})"
  "walk_result ops keys (Inr (Some m)) = (m \<noteq> [] \<and> set keys \<inter> set ops \<noteq> {})"
  by (simp_all add: walk_result_def)

lemma walk_result_found:
  "walk_result ops keys (Inr res) \<Longrightarrow> found res = (set keys \<inter> set ops \<noteq> {})"
  by (cases res) (simp_all add: found_def)

lemma walk_result_found_keep:
  "walk_result ops keys (Inr res) \<Longrightarrow> found res \<Longrightarrow>
     walk_result ops (k # keys @ rest) (Inr res)"
  "walk_result ops keys (Inr res) \<Longrightarrow> found res \<Longrightarrow>
     walk_result ops (keys @ rest) (Inr res)"
  by (cases res; auto simp: found_def)+

lemma walk_result_continue:
  "k \<notin> set ops \<Longrightarrow> set keys \<inter> set ops = {} \<Longrightarrow> walk_result ops rest outcome \<Longrightarrow>
     walk_result ops (k # keys @ rest) outcome"
  "set keys \<inter> set ops = {} \<Longrightarrow> walk_result ops rest outcome \<Longrightarrow>
     walk_result ops (keys @ rest) outcome"
  by (auto simp: walk_result_def Int_Un_distrib2 split: sum.splits option.splits)

text \<open>The walk answers by the keys it visits, and raises nothing but \<open>RecursionError\<close>.\<close>

lemma check_walk_result:
  "walk_result ops (walked_keys d) (check_dict room ops d)"
  "walk_result ops (walked_item_keys xs) (check_items room ops xs)"
proof (induction room ops d and room ops xs rule: check_dict_check_items.induct)
  case (1 room ops)
  show ?case by simp
next
  case (2 room ops key v d)
  show ?case
  proof (cases "key \<in> set ops")
    case True
    then show ?thesis by auto
  next
    case False
    note nk = False
    show ?thesis
    proof (cases v)
      case (JDict d')
      show ?thesis
      proof (cases room)
        case 0
        with nk JDict show ?thesis by simp
      next
        case (Suc room')
        show ?thesis
        proof (cases "check_dict room' ops d'")
          case (Inl e)
          with "2.IH"(7) [OF nk JDict Suc] nk JDict Suc show ?thesis by simp
        next
          case (Inr result)
          from "2.IH"(7) [OF nk JDict Suc] Inr
          have n: "walk_result ops (walked_keys d') (Inr result)" by simp
          show ?thesis
          proof (cases "found result")
            case True
            from walk_result_found_keep(1) [OF n True, of key "walked_keys d"]
            show ?thesis using nk JDict Suc Inr True by simp
          next
            case False
            from walk_result_found [OF n] False
            have "set (walked_keys d') \<inter> set ops = {}" by simp
            from walk_result_continue(1) [OF nk this "2.IH"(8) [OF nk JDict Suc Inr False]]
            show ?thesis using nk JDict Suc Inr False by simp
          qed
        qed
      qed
    next
      case (JList items)
      show ?thesis
      proof (cases "check_items room ops items")
        case (Inl e)
        with "2.IH"(5) [OF nk JList] nk JList show ?thesis by simp
      next
        case (Inr result)
        from "2.IH"(5) [OF nk JList] Inr
        have n: "walk_result ops (walked_item_keys items) (Inr result)" by simp
        show ?thesis
        proof (cases "found result")
          case True
          from walk_result_found_keep(1) [OF n True, of key "walked_keys d"]
          show ?thesis using nk JList Inr True by simp
        next
          case False
          from walk_result_found [OF n] False
          have "set (walked_item_keys items) \<inter> set ops = {}" by simp
          from walk_result_continue(1) [OF nk this "2.IH"(6) [OF nk JList Inr False]]
          show ?thesis using nk JList Inr False by simp
        qed
      qed
    next
      case JNull
      from walk_result_continue(1) [OF nk _ "2.IH"(1) [OF nk JNull], of "[]"]
      show ?thesis using nk JNull by simp
    next
      case (JBool b)
      from walk_result_continue(1) [OF nk _ "2.IH"(2) [OF nk JBool], of "[]"]
      show ?thesis using nk JBool by simp
    next
      case (JNum n)
      from walk_result_continue(1) [OF nk _ "2.IH"(3) [OF nk JNum], of "[]"]
      show ?thesis using nk JNum by simp
    next
      case (JStr s)
      from walk_result_continue(1) [OF nk _ "2.IH"(4) [OF nk JStr], of "[]"]
      show ?thesis using nk JStr by simp
    qed
  qed
next
  case (3 room ops)
  show ?case by simp
next
  case (4 room ops item items)
  show ?case
  proof (cases item)
    case (JDict d')
    show ?thesis
    proof (cases room)
      case 0
      with JDict show ?thesis by simp
    next
      case (Suc room')
      show ?thesis
      proof (cases "check_dict room' ops d'")
        case (Inl e)
        with "4.IH"(6) [OF JDict Suc] JDict Suc show ?thesis by simp
      next
        case (Inr result)
        from "4.IH"(6) [OF JDict Suc] Inr
        have n: "walk_result ops (walked_keys d') (Inr result)" by simp
        show ?thesis
        proof (cases "found result")
          case True
          from walk_result_found_keep(2) [OF n True, of "walked_item_keys items"]
          show ?thesis using JDict Suc Inr True by simp
        next
          case False
          from walk_result_found [OF n] False
          have "set (walked_keys d') \<inter> set ops = {}" by simp
          from walk_result_continue(2) [OF this "4.IH"(7) [OF JDict Suc Inr False]]
          show ?thesis using JDict Suc Inr False by simp
        qed
      qed
    qed
  next
    case JNull
    with "4.IH"(1) [OF JNull] show ?thesis by simp
  next
    case (JBool b)
    with "4.IH"(2) [OF JBool] show ?thesis by simp
  next
    case (JNum n)
    with "4.IH"(3) [OF JNum] show ?thesis by simp
  next
    case (JStr s)
    with "4.IH"(4) [OF JStr] show ?thesis by simp
  next
    case (JList ys)
    with "4.IH"(5) [OF JList] show ?thesis by simp
  qed
qed

text \<open>The execution-side walk is the same walk, answering whether nothing was found.\<close>

lemma safe_is_check:
  "safe_dict room ops d =
     (case check_dict room ops d of Inl e \<Rightarrow> Inl e | Inr r \<Rightarrow> Inr (\<not> found r))"
  "safe_items room ops xs =
     (case check_items room ops xs of Inl e \<Rightarrow> Inl e | Inr r \<Rightarrow> Inr (\<not> found r))"
  by (induction room ops d and room ops xs rule: check_dict_check_items.induct)
     (auto simp: found_def split: json.splits nat.splits sum.splits)

text \<open>A walk that fits the recursion limit raises nothing.\<close>

lemma check_total:
  "walk_depth d \<le> room \<Longrightarrow> \<exists>res. check_dict room ops d = Inr res"
  "walk_depth_items xs \<le> room \<Longrightarrow> \<exists>res. check_items room ops xs = Inr res"
  apply (induction room ops d and room ops xs rule: check_dict_check_items.induct)
     apply (auto split: json.splits sum.splits nat.splits)
    apply (metis sum.distinct(1))+
  done

lemma check_decides:
  assumes "walk_depth d \<le> room"
  shows "\<exists>res. check_dict room ops d = Inr res \<and>
           found res = (set (walked_keys d) \<inter> set ops \<noteq> {})"
proof -
  from check_total(1) [OF assms] obtain res where r: "check_dict room ops d = Inr res"
    by blast
  from check_walk_result(1) [of ops d room] r
  have "walk_result ops (walked_keys d) (Inr res)" by simp
  from walk_result_found [OF this] r show ?thesis by simp
qed


lemma is_safe_query_walked:
  assumes "walk_depth d \<le> room"
  shows "is_safe_query (Suc room) (JDict d) =
     Inr (\<not> (\<exists>k \<in> set (walked_keys d).
                k = ''$where'' \<or> k = ''$function'' \<or> k = ''$accumulator''))"
proof -
  from check_decides [OF assms, of mcp_dangerous_operators] obtain res where
    r: "check_dict room mcp_dangerous_operators d = Inr res"
    and f: "found res = (set (walked_keys d) \<inter> set mcp_dangerous_operators \<noteq> {})"
    by blast
  have "(set (walked_keys d) \<inter> set mcp_dangerous_operators \<noteq> {}) =
        (\<exists>k \<in> set (walked_keys d).
            k = ''$where'' \<or> k = ''$function'' \<or> k = ''$accumulator'')"
    by (auto simp: mcp_dangerous_operators_def)
  with r f show ?thesis
    by (simp add: is_safe_query_def safe_is_check(1))
qed

text \<open>The walk of \<open>n\<close> nested mappings needs \<open>n\<close> nested calls.\<close>

lemma walk_depth_nested:
  "walk_depth (nested n) = n"
  by (induction n) simp_all


lemma validate_mongo_safety_examples:
  "validate_mongo_safety (Suc room) (JDict [(''status'', JStr ''active'')]) =
     Inr \<lparr>safe = True, reason = None\<rparr>"
  "validate_mongo_safety (Suc room) (JDict [(''$where'', JStr ''this.a > 1'')]) =
     Inr \<lparr>safe = False, reason = Some ''Query contains dangerous operator: $where''\<rparr>"
  "validate_mongo_safety (Suc (Suc (Suc room)))
     (JDict [(''$or'', JList [JDict [(''a'', JNum 1)],
                             JDict [(''b'', JDict [(''$function'', JDict [])])]])]) =
     Inr \<lparr>safe = False, reason = Some ''Query contains dangerous operator: $function''\<rparr>"
  by (simp_all add: validate_mongo_safety_def dangerous_operators_def found_def)

section \<open>Claims about the document validator\<close>

text \<open>
  C3. The claim asks that \<open>validate_mongo_safety\<close> answer unsafe whenever \<open>$where\<close> or
  \<open>$function\<close> is a key of a mapping found inside lists at any depth. The walk descends
  into the mappings that are items of a list, and skips an item that is itself a list.
  The filter
  \<open>{"$expr": {"$in": ["$a", [{"$function": {"body": "...", "args": [], "lang": "js"}}]]}}\<close>
  has the key \<open>$function\<close> in a mapping inside a list inside a list: the validator answers
  safe, and so does the execution-side \<open>_is_safe_query\<close>, whenever the interpreter allows
  the two calls of \<open>check_dict\<close> the walk makes.
\<close>

theorem validate_mongo_safety_skips_nested_list:
  "''$function'' \<in> set (keys_of
       (JDict [(''$expr'', JDict [(''$in'', JList [JStr ''$a'',
          JList [JDict [(''$function'',
            JDict [(''body'', JStr ''function() { return true }''),
                   (''args'', JList []), (''lang'', JStr ''js'')])]]])])]))
   \<and> validate_mongo_safety (Suc (Suc room))
       (JDict [(''$expr'', JDict [(''$in'', JList [JStr ''$a'',
          JList [JDict [(''$function'',
            JDict [(''body'', JStr ''function() { return true }''),
                   (''args'', JList []), (''lang'', JStr ''js'')])]]])])])
     = Inr \<lparr>safe = True, reason = None\<rparr>
   \<and> is_safe_query (Suc (Suc room))
       (JDict [(''$expr'', JDict [(''$in'', JList [JStr ''$a'',
          JList [JDict [(''$function'',
            JDict [(''body'', JStr ''function() { return true }''),
                   (''args'', JList []), (''lang'', JStr ''js'')])]]])])])
     = Inr True"
  by (simp add: validate_mongo_safety_def dangerous_operators_def found_def
      is_safe_query_def mcp_dangerous_operators_def)

section \<open>Claims about the totality of the validators\<close>




section \<open>Facts about the router\<close>

lemma sublist_ascii_lower_spells: "sublist kw (ascii_lower q) = spells q kw"
proof
  assume "sublist kw (ascii_lower q)"
  then obtain ps ss where "map lower_char q = ps @ kw @ ss"
    by (auto simp: sublist_def ascii_lower_def)
  then obtain a vs where 1: "q = a @ vs" "map lower_char vs = kw @ ss"
    by (metis map_eq_append_conv)
  then obtain b c where 2: "vs = b @ c" "map lower_char b = kw"
    by (metis map_eq_append_conv)
  from 1 2 have "q = a @ b @ c" "ascii_lower b = kw"
    by (simp_all add: ascii_lower_def)
  then show "spells q kw"
    unfolding spells_def sublist_def by blast
next
  assume "spells q kw"
  then obtain piece ps ss where "q = ps @ piece @ ss" "ascii_lower piece = kw"
    by (auto simp: spells_def sublist_def)
  then have "ascii_lower q = ascii_lower ps @ kw @ ascii_lower ss"
    by (auto simp add: ascii_lower_def)
  then show "sublist kw (ascii_lower q)"
    unfolding sublist_def by blast
qed

lemma mentions_spells:
  "lower_cases_ascii lo \<Longrightarrow> ascii_text q \<Longrightarrow> mentions lo q kw = spells q kw"
  by (simp add: lower_cases_ascii_def mentions_def sublist_ascii_lower_spells)

lemma keyword_matches_scores:
  "keyword_matches mongo_keywords (lo q) = document_score lo q"
  "keyword_matches postgres_keywords (lo q) = relational_score lo q"
  by (simp_all add: keyword_matches_def document_score_def relational_score_def
      str_in_sublist mentions_def [abs_def])

lemma fast_route_policy:
  "fast_route lo avail q =
     route_policy (document_score lo q) (relational_score lo q)
       (''mongodb'' \<in> set avail) (''postgresql'' \<in> set avail)"
  by (simp add: fast_route_def route_policy_def keyword_matches_scores Let_def)

lemma relational_score_pos:
  "(0 < relational_score lo q) = (\<exists>kw \<in> set postgres_keywords. mentions lo q kw)"
  by (auto simp: relational_score_def filter_empty_conv)

lemma document_score_zero:
  "(document_score lo q = 0) = (\<forall>kw \<in> set mongo_keywords. \<not> mentions lo q kw)"
  by (auto simp: document_score_def filter_empty_conv)

lemma lower_cases_ascii_ascii_lower: "lower_cases_ascii ascii_lower"
  by (simp add: lower_cases_ascii_def)

section \<open>Claims about the router\<close>

text \<open>
  C4. \<open>_fast_route\<close> is the five-rule policy of the specification over the two keyword
  scores: document store when its score is strictly greater and it is available (0.8);
  else relational when its score is positive and it is available (0.8); else relational
  when available (0.6); else document when available (0.6); else relational (0.5). A
  store's score counts the entries of its indicator list that occur in the question as
  lower-cased by Python's \<open>str.lower\<close>, which is a parameter \<open>lo\<close> here: the statement
  holds for whatever \<open>str.lower\<close> does, on every text. So a question that mentions a
  relational indicator and no document indicator, with both stores available, goes to
  the relational store with confidence 0.8; and with equal non-zero scores rule 1 does
  not fire and rule 2 sends the question to the relational store (which rule 2 requires
  to be available) with confidence 0.8. When \<open>str.lower\<close> lower-cases ASCII text letter
  by letter, a question of ASCII characters mentions a keyword exactly when one of its
  contiguous pieces is the keyword up to letter case.
\<close>

theorem fast_route_five_rules:
  "fast_route lo avail q =
     route_policy (document_score lo q) (relational_score lo q)
       (''mongodb'' \<in> set avail) (''postgresql'' \<in> set avail)
   \<and> ((\<exists>kw \<in> set postgres_keywords. mentions lo q kw)
        \<and> (\<forall>kw \<in> set mongo_keywords. \<not> mentions lo q kw)
        \<and> ''postgresql'' \<in> set avail \<and> ''mongodb'' \<in> set avail
       \<longrightarrow> fast_route lo avail q = \<lparr>database = ''postgresql'', confidence = 0.8\<rparr>)
   \<and> (document_score lo q = relational_score lo q \<and> 0 < relational_score lo q
        \<and> ''postgresql'' \<in> set avail
       \<longrightarrow> fast_route lo avail q = \<lparr>database = ''postgresql'', confidence = 0.8\<rparr>)
   \<and> (lower_cases_ascii lo \<and> ascii_text q \<longrightarrow> mentions lo q kw = spells q kw)"
proof (intro conjI impI)
  show "fast_route lo avail q =
     route_policy (document_score lo q) (relational_score lo q)
       (''mongodb'' \<in> set avail) (''postgresql'' \<in> set avail)"
    by (rule fast_route_policy)
next
  assume a: "(\<exists>kw \<in> set postgres_keywords. mentions lo q kw)
        \<and> (\<forall>kw \<in> set mongo_keywords. \<not> mentions lo q kw)
        \<and> ''postgresql'' \<in> set avail \<and> ''mongodb'' \<in> set avail"
  then have "0 < relational_score lo q" "document_score lo q = 0"
    by (simp_all add: relational_score_pos document_score_zero)
  with a show "fast_route lo avail q = \<lparr>database = ''postgresql'', confidence = 0.8\<rparr>"
    by (simp add: fast_route_policy route_policy_def)
next
  assume "document_score lo q = relational_score lo q \<and> 0 < relational_score lo q
        \<and> ''postgresql'' \<in> set avail"
  then show "fast_route lo avail q = \<lparr>database = ''postgresql'', confidence = 0.8\<rparr>"
    by (simp add: fast_route_policy route_policy_def)
next
  assume "lower_cases_ascii lo \<and> ascii_text q"
  then show "mentions lo q kw = spells q kw"
    by (simp add: mentions_spells)
qed

theorem fast_route_five_rules_witness:
  "fast_route ascii_lower [''postgresql'', ''mongodb''] ''Show me all CUSTOMERS from New York''
     = \<lparr>database = ''postgresql'', confidence = 0.8\<rparr>
   \<and> document_score ascii_lower ''orders and events''
       = relational_score ascii_lower ''orders and events''
   \<and> 0 < relational_score ascii_lower ''orders and events''
   \<and> fast_route ascii_lower [''postgresql'', ''mongodb''] ''orders and events''
     = \<lparr>database = ''postgresql'', confidence = 0.8\<rparr>
   \<and> spells ''Show me all CUSTOMERS from New York'' ''customer''"
proof -
  let ?q = "''Show me all CUSTOMERS from New York''"
  let ?t = "''orders and events''"
  let ?both = "[''postgresql'', ''mongodb'']"
  have "str_in ''customer'' (ascii_lower ?q)"
    by code_simp
  then have m: "mentions ascii_lower ?q ''customer''"
    by (simp only: str_in_sublist mentions_def)
  then have h1: "\<exists>kw \<in> set postgres_keywords. mentions ascii_lower ?q kw"
    by (auto simp: postgres_keywords_def)
  have "keyword_matches mongo_keywords (ascii_lower ?q) = 0"
    by code_simp
  then have h2: "\<forall>kw \<in> set mongo_keywords. \<not> mentions ascii_lower ?q kw"
    by (simp only: keyword_matches_scores document_score_zero)
  have "keyword_matches mongo_keywords (ascii_lower ?t) = 2"
       "keyword_matches postgres_keywords (ascii_lower ?t) = 2"
    by code_simp+
  then have h3: "document_score ascii_lower ?t = relational_score ascii_lower ?t"
    "0 < relational_score ascii_lower ?t"
    by (simp_all add: keyword_matches_scores)
  have h4: "''postgresql'' \<in> set ?both" "''mongodb'' \<in> set ?both"
    by simp_all
  have h5: "ascii_text ?q"
    by code_simp
  from h1 h2 h4 fast_route_five_rules [of ascii_lower ?both ?q]
  have "fast_route ascii_lower ?both ?q = \<lparr>database = ''postgresql'', confidence = 0.8\<rparr>"
    by blast
  moreover from h3 h4 fast_route_five_rules [of ascii_lower ?both ?t]
  have "fast_route ascii_lower ?both ?t = \<lparr>database = ''postgresql'', confidence = 0.8\<rparr>"
    by blast
  moreover from h5 m lower_cases_ascii_ascii_lower
    fast_route_five_rules [of ascii_lower ?both ?q "''customer''"]
  have "spells ?q ''customer''"
    by blast
  ultimately show ?thesis
    using h3 by blast
qed

section \<open>Facts about cleaning the answer\<close>

lemma split_nl_not_empty: "split_nl s \<noteq> []"
  by (induction s) auto

lemma join_nl_split_nl: "join_nl (split_nl s) = s"
proof (induction s)
  case Nil
  show ?case by simp
next
  case (Cons c cs)
  obtain l ls where "split_nl cs = l # ls"
    using split_nl_not_empty [of cs] by (cases "split_nl cs") auto
  with Cons show ?case by (cases ls) auto
qed

lemma split_nl_single: "newline \<notin> set s \<Longrightarrow> split_nl s = [s]"
  by (induction s) auto

lemma split_nl_first_line:
  "newline \<notin> set l \<Longrightarrow> split_nl (l @ newline # rest) = l # split_nl rest"
  by (induction l) auto

lemma split_nl_last_line:
  "newline \<notin> set l \<Longrightarrow> split_nl (body @ newline # l) = split_nl body @ [l]"
proof (induction body)
  case Nil
  then show ?case by (simp add: split_nl_single)
next
  case (Cons c cs)
  obtain x xs where "split_nl cs = x # xs"
    using split_nl_not_empty [of cs] by (cases "split_nl cs") auto
  with Cons show ?case by auto
qed

lemma backtick_not_newline: "newline \<notin> set ''```''"
  by (simp add: newline_def)

lemma clean_response_fenced:
  assumes "strip answer = ''```'' @ tag @ newline # body @ newline # ''```''"
    and "newline \<notin> set tag"
  shows "clean_response strip answer = (if prefix ''json'' body then drop 4 body else body)"
proof -
  let ?block = "''```'' @ tag @ newline # body @ newline # ''```''"
  have "newline \<notin> set (''```'' @ tag)"
    using assms(2) backtick_not_newline by simp
  then have "split_nl ((''```'' @ tag) @ newline # (body @ newline # ''```''))
      = (''```'' @ tag) # split_nl (body @ newline # ''```'')"
    by (rule split_nl_first_line)
  also have "split_nl (body @ newline # ''```'') = split_nl body @ [''```'']"
    by (rule split_nl_last_line) (rule backtick_not_newline)
  finally have lines: "split_nl ?block = (''```'' @ tag) # split_nl body @ [''```'']"
    by simp
  have "prefix ''```'' ?block"
    by simp
  with lines assms(1) show ?thesis
    by (simp add: clean_response_def Let_def join_nl_split_nl del: append.simps)
qed

lemma clean_response_plain:
  "\<not> prefix ''```'' (strip answer) \<Longrightarrow> clean_response strip answer = strip answer"
  by (simp add: clean_response_def Let_def)

section \<open>Claims about parsing the answer\<close>

text \<open>
  C8, as stated, fails for the relational parser: it replaces the decoded \<open>sql\<close> text by
  its stripped form, so a field of the input object does not come back with its exact
  value. The answer \<open>{"sql": " SELECT 1 "}\<close> is returned with \<open>sql\<close> equal to
  \<open>SELECT 1\<close>. (The texts are ASCII, where \<open>str.strip\<close> is \<open>ascii_strip\<close>.)
\<close>

theorem sql_parse_response_strips_sql_counterexample:
  \<open>sql_parse_response ascii_strip
     (\<lambda>t. if t = ''{"sql": " SELECT 1 "}''
          then Inr (JDict [(''sql'', JStr '' SELECT 1 '')])
          else Inl (JSONDecodeError ''Expecting value''))
     (\<lambda>t. None) (\<lambda>e. ''Expecting value'')
     ''{"sql": " SELECT 1 "}''
   = Inr [(''sql'', JStr ''SELECT 1''), (''success'', JBool True)]
   \<and> JStr ''SELECT 1'' \<noteq> JStr '' SELECT 1 ''\<close>
  by code_simp

text \<open>
  C8, amended. \<open>strip\<close> is Python's \<open>str.strip\<close>, whatever it removes. Let the cleaned
  answer decode to a JSON object. If its \<open>sql\<close> is a non-empty string, the relational
  parser returns the object with every field at its exact value, except that \<open>sql\<close>
  holds the stripped text and \<open>success\<close> is (set or overwritten to) true. If its
  \<open>query_type\<close> is truthy, the document parser returns the object with every field at
  its exact value, except that \<open>success\<close> is (set or overwritten to) true. No field is
  dropped. Cleaning: when the stripped answer is a fenced block, with any language tag on
  the fence line, the cleaned text is the body between the fence lines, less a leading
  \<open>json\<close> if the body starts with one; when the stripped answer does not start with a
  fence, the cleaned text is the stripped answer.
\<close>

theorem parse_response_keeps_fields:
  "(loads (clean_response strip answer) = Inr (JDict obj) \<and> dict_get obj ''sql'' = JStr s \<and> s \<noteq> []
      \<longrightarrow> (\<exists>res. sql_parse_response strip loads search msg answer = Inr res \<and>
             map_of res = (map_of obj)(''sql'' \<mapsto> JStr (strip s), ''success'' \<mapsto> JBool True)))
   \<and> (loads (clean_response strip answer) = Inr (JDict obj) \<and> truthy (dict_get obj ''query_type'')
      \<longrightarrow> (\<exists>res. mongo_parse_response strip loads msg answer = Inr res \<and>
             map_of res = (map_of obj)(''success'' \<mapsto> JBool True)))
   \<and> (strip answer = ''```'' @ tag @ newline # body @ newline # ''```'' \<and> newline \<notin> set tag
      \<longrightarrow> clean_response strip answer = (if prefix ''json'' body then drop 4 body else body))
   \<and> (\<not> prefix ''```'' (strip answer) \<longrightarrow> clean_response strip answer = strip answer)"
proof (intro conjI impI)
  assume "loads (clean_response strip answer) = Inr (JDict obj) \<and> dict_get obj ''sql'' = JStr s \<and> s \<noteq> []"
  then show "\<exists>res. sql_parse_response strip loads search msg answer = Inr res \<and>
      map_of res = (map_of obj)(''sql'' \<mapsto> JStr (strip s), ''success'' \<mapsto> JBool True)"
    by (simp add: sql_parse_response_def update_conv')
next
  assume "loads (clean_response strip answer) = Inr (JDict obj) \<and> truthy (dict_get obj ''query_type'')"
  then show "\<exists>res. mongo_parse_response strip loads msg answer = Inr res \<and>
      map_of res = (map_of obj)(''success'' \<mapsto> JBool True)"
    by (simp add: mongo_parse_response_def update_conv')
next
  assume "strip answer = ''```'' @ tag @ newline # body @ newline # ''```'' \<and> newline \<notin> set tag"
  then have "strip answer = ''```'' @ tag @ newline # body @ newline # ''```''"
    "newline \<notin> set tag"
    by simp_all
  then show "clean_response strip answer = (if prefix ''json'' body then drop 4 body else body)"
    by (rule clean_response_fenced)
next
  assume "\<not> prefix ''```'' (strip answer)"
  then show "clean_response strip answer = strip answer"
    by (rule clean_response_plain)
qed

theorem parse_response_keeps_fields_witness:
  "(\<exists>res. sql_parse_response ascii_strip
            (\<lambda>t. Inr (JDict [(''sql'', JStr '' SELECT 1 ''), (''query_type'', JStr ''find'')]))
            (\<lambda>t. None) (\<lambda>e. []) '' {} '' = Inr res \<and>
          map_of res =
            (map_of [(''sql'', JStr '' SELECT 1 ''), (''query_type'', JStr ''find'')])
              (''sql'' \<mapsto> JStr (ascii_strip '' SELECT 1 ''), ''success'' \<mapsto> JBool True))
   \<and> (\<exists>res. mongo_parse_response ascii_strip
            (\<lambda>t. Inr (JDict [(''sql'', JStr '' SELECT 1 ''), (''query_type'', JStr ''find'')]))
            (\<lambda>e. []) '' {} '' = Inr res \<and>
          map_of res =
            (map_of [(''sql'', JStr '' SELECT 1 ''), (''query_type'', JStr ''find'')])
              (''success'' \<mapsto> JBool True))
   \<and> clean_response ascii_strip ('' ```json'' @ newline # ''{}'' @ newline # ''``` '') = ''{}''
   \<and> clean_response ascii_strip '' {} '' = ascii_strip '' {} ''"
proof -
  let ?obj = "[(''sql'', JStr '' SELECT 1 ''), (''query_type'', JStr ''find'')]"
  let ?fenced = "'' ```json'' @ newline # ''{}'' @ newline # ''``` ''"
  have h1: "dict_get ?obj ''sql'' = JStr '' SELECT 1 ''" "'' SELECT 1 '' \<noteq> []"
    by (simp_all add: dict_get_def)
  have h2: "truthy (dict_get ?obj ''query_type'')"
    by (simp add: dict_get_def)
  have h3: "ascii_strip ?fenced = ''```'' @ ''json'' @ newline # ''{}'' @ newline # ''```''"
    by code_simp
  have h4: "newline \<notin> set ''json''" "\<not> prefix ''json'' ''{}''"
    by (simp_all add: newline_def)
  have h5: "\<not> prefix ''```'' (ascii_strip '' {} '')"
    by code_simp
  from h1 h2
    parse_response_keeps_fields
      [where strip = ascii_strip and loads = "\<lambda>t. Inr (JDict ?obj)" and answer = "'' {} ''"
         and obj = ?obj and s = "'' SELECT 1 ''" and search = "\<lambda>t. None" and msg = "\<lambda>e. []"]
  have a: "(\<exists>res. sql_parse_response ascii_strip (\<lambda>t. Inr (JDict ?obj))
            (\<lambda>t. None) (\<lambda>e. []) '' {} '' = Inr res \<and>
          map_of res = (map_of ?obj)
              (''sql'' \<mapsto> JStr (ascii_strip '' SELECT 1 ''), ''success'' \<mapsto> JBool True))"
    and b: "(\<exists>res. mongo_parse_response ascii_strip (\<lambda>t. Inr (JDict ?obj))
            (\<lambda>e. []) '' {} '' = Inr res \<and>
          map_of res = (map_of ?obj)(''success'' \<mapsto> JBool True))"
    by blast+
  from h5 parse_response_keeps_fields [where strip = ascii_strip and answer = "'' {} ''"]
  have c: "clean_response ascii_strip '' {} '' = ascii_strip '' {} ''"
    by blast
  from h3 h4
    parse_response_keeps_fields
      [where strip = ascii_strip and answer = ?fenced and tag = "''json''" and body = "''{}''"]
  have d: "clean_response ascii_strip ?fenced = ''{}''"
    by simp
  from a b c d show ?thesis
    by blast
qed

section \<open>Tracing never raises and never touches the functional state\<close>

lemma quiet_harmless: "quiet m \<Longrightarrow> harmless m"
  by (simp add: quiet_def harmless_def)

lemma quiet_return [intro!]: "quiet (py_return x)"
  by (simp add: quiet_def py_return_def)

lemma harmless_return [intro!]: "harmless (py_return x)"
  by (simp add: harmless_def py_return_def)

lemma harmless_raise [intro!]: "harmless (py_raise e)"
  by (simp add: harmless_def py_raise_def)

lemma quiet_get [intro!]: "quiet (py_get f)"
  by (simp add: quiet_def py_get_def)

lemma harmless_get [intro!]: "harmless (py_get f)"
  by (simp add: harmless_def py_get_def)

lemma quiet_modify: "(\<And>w. functional (f w) = functional w) \<Longrightarrow> quiet (py_modify f)"
  by (simp add: quiet_def py_modify_def)

lemma harmless_modify: "(\<And>w. functional (f w) = functional w) \<Longrightarrow> harmless (py_modify f)"
  by (simp add: harmless_def py_modify_def)

lemma quiet_bind [intro!]:
  assumes "quiet m" "\<And>x. quiet (f x)"
  shows "quiet (py_bind m f)"
proof -
  have "(\<exists>y. fst (py_bind m f w) = Inr y) \<and> functional (snd (py_bind m f w)) = functional w" for w
  proof -
    from assms(1) obtain x where x: "fst (m w) = Inr x" and fr: "functional (snd (m w)) = functional w"
      by (auto simp: quiet_def)
    then have "py_bind m f w = f x (snd (m w))"
      by (cases "m w") (simp add: py_bind_def)
    with assms(2) [of x] fr show ?thesis
      by (simp add: quiet_def)
  qed
  then show ?thesis by (simp add: quiet_def)
qed

lemma harmless_bind [intro!]:
  assumes "harmless m" "\<And>x. harmless (f x)"
  shows "harmless (py_bind m f)"
proof -
  have "functional (snd (py_bind m f w)) = functional w" for w
  proof (cases "m w")
    case (Pair out w')
    with assms(1) have fr: "functional w' = functional w"
      by (metis harmless_def snd_conv)
    show ?thesis
    proof (cases out)
      case (Inl e)
      with Pair fr show ?thesis by (simp add: py_bind_def)
    next
      case (Inr x)
      with Pair fr assms(2) [of x] show ?thesis by (simp add: py_bind_def harmless_def)
    qed
  qed
  then show ?thesis by (simp add: harmless_def)
qed

lemma quiet_try [intro!]:
  assumes "harmless m" "\<And>e. quiet (h e)"
  shows "quiet (py_try m h)"
proof -
  have "(\<exists>y. fst (py_try m h w) = Inr y) \<and> functional (snd (py_try m h w)) = functional w" for w
  proof (cases "m w")
    case (Pair out w')
    with assms(1) have fr: "functional w' = functional w"
      by (metis harmless_def snd_conv)
    show ?thesis
    proof (cases out)
      case (Inl e)
      with Pair fr assms(2) [of e] show ?thesis by (simp add: py_try_def quiet_def)
    next
      case (Inr x)
      with Pair fr show ?thesis by (simp add: py_try_def)
    qed
  qed
  then show ?thesis by (simp add: quiet_def)
qed

lemma harmless_sdk_do [intro!]: "harmless (sdk_do E c)"
  by (auto simp: sdk_do_def split: option.split)

lemma functional_lf [simp]:
  "functional (w\<lparr>langfuse_client := b\<rparr>) = functional w"
  "functional (w\<lparr>init_failed := b\<rparr>) = functional w"
  "functional (w\<lparr>agent_tracer := t\<rparr>) = functional w"
  "functional (w\<lparr>generator_tracer := t\<rparr>) = functional w"
  by (simp_all add: functional_def)

lemma quiet_if [intro!]: "(c \<Longrightarrow> quiet a) \<Longrightarrow> (\<not> c \<Longrightarrow> quiet b) \<Longrightarrow> quiet (if c then a else b)"
  by simp

lemma harmless_if [intro!]: "(c \<Longrightarrow> harmless a) \<Longrightarrow> (\<not> c \<Longrightarrow> harmless b) \<Longrightarrow> harmless (if c then a else b)"
  by simp

lemma quiet_lf_client: "quiet (lf_client E)"
  unfolding lf_client_def
  by (auto intro!: quiet_modify harmless_modify simp: split_def)

lemma quiet_lf_is_enabled: "quiet (lf_is_enabled E)"
  unfolding lf_is_enabled_def by (auto intro: quiet_lf_client)

lemma harmless_lf_client_call: "harmless (lf_client_call E c)"
  unfolding lf_client_call_def by (auto intro: quiet_harmless [OF quiet_lf_client])

lemma quiet_lf_start_span: "quiet (lf_start_span E)"
  unfolding lf_start_span_def by (auto intro: quiet_lf_is_enabled harmless_lf_client_call)

lemma quiet_lf_end_span: "quiet (lf_end_span E s out)"
  unfolding lf_end_span_def by auto

lemma quiet_lf_start_generation: "quiet (lf_start_generation E p)"
  unfolding lf_start_generation_def by auto

lemma quiet_lf_end_generation: "quiet (lf_end_generation E g)"
  unfolding lf_end_generation_def by auto

lemma quiet_lf_flush: "quiet (lf_flush E)"
  unfolding lf_flush_def by (auto intro: quiet_lf_is_enabled harmless_lf_client_call)

lemma quiet_start_trace: "quiet (start_trace E t)"
  unfolding start_trace_def by (auto intro: quiet_lf_is_enabled quiet_lf_start_span)

lemma quiet_start_span: "quiet (start_span E t)"
  unfolding start_span_def by (auto intro: quiet_lf_is_enabled)

lemma quiet_end_span: "quiet (end_span E out t)"
  unfolding end_span_def by auto

lemma quiet_log_generation: "quiet (log_generation E t)"
  unfolding log_generation_def
  by (auto intro: quiet_lf_is_enabled quiet_lf_start_generation quiet_lf_end_generation)

lemma quiet_log_score: "quiet (log_score E t)"
  unfolding log_score_def by auto

lemma quiet_end_trace: "quiet (end_trace E t)"
  unfolding end_trace_def by (auto intro: quiet_lf_end_span quiet_lf_flush)

lemma quiet_on_agent_tracer: "(\<And>t. quiet (method t)) \<Longrightarrow> quiet (on_agent_tracer method)"
  unfolding on_agent_tracer_def by (auto intro!: quiet_modify)

lemma quiet_on_generator_tracer: "(\<And>t. quiet (method t)) \<Longrightarrow> quiet (on_generator_tracer method)"
  unfolding on_generator_tracer_def by (auto intro!: quiet_modify)

section \<open>Rules for reasoning about computations\<close>

lemma functional_eq:
  "(functional w' = functional w) =
   (conversation_history w' = conversation_history w \<and> tool_calls w' = tool_calls w \<and>
    pq_result w' = pq_result w)"
  by (simp add: functional_def)

lemma specD:
  "spec m h c r Q \<Longrightarrow> conversation_history w = h \<Longrightarrow> tool_calls w = c \<Longrightarrow> pq_result w = r
   \<Longrightarrow> Q (fst (m w)) (conversation_history (snd (m w))) (tool_calls (snd (m w)))
        (pq_result (snd (m w)))"
  by (simp add: spec_def)

lemma spec_quiet:
  assumes "quiet m" "\<And>x. Q (Inr x) h c r"
  shows "spec m h c r Q"
  unfolding spec_def
proof (intro allI impI)
  fix w :: world assume w: "conversation_history w = h \<and> tool_calls w = c \<and> pq_result w = r"
  from assms(1) obtain x where "fst (m w) = Inr x" "functional (snd (m w)) = functional w"
    unfolding quiet_def by blast
  with w assms(2) [of x] show "Q (fst (m w)) (conversation_history (snd (m w)))
      (tool_calls (snd (m w))) (pq_result (snd (m w)))"
    by (simp add: functional_eq)
qed

lemma spec_bind:
  assumes "spec m h c r (\<lambda>out h' c' r'. case out of Inl e \<Rightarrow> Q (Inl e) h' c' r'
                                         | Inr x \<Rightarrow> spec (f x) h' c' r' Q)"
  shows "spec (py_bind m f) h c r Q"
  unfolding spec_def
proof (intro allI impI)
  fix w :: world assume w: "conversation_history w = h \<and> tool_calls w = c \<and> pq_result w = r"
  obtain out w' where m: "m w = (out, w')" by (cases "m w")
  from w m have *: "case out of Inl e \<Rightarrow> Q (Inl e) (conversation_history w') (tool_calls w') (pq_result w')
     | Inr x \<Rightarrow> spec (f x) (conversation_history w') (tool_calls w') (pq_result w') Q"
    using specD [OF assms, of w] by (cases out) simp_all
  show "Q (fst (py_bind m f w)) (conversation_history (snd (py_bind m f w)))
          (tool_calls (snd (py_bind m f w))) (pq_result (snd (py_bind m f w)))"
  proof (cases out)
    case (Inl e)
    with * m show ?thesis by (simp add: py_bind_def)
  next
    case (Inr x)
    with * m show ?thesis by (simp add: py_bind_def spec_def)
  qed
qed

lemma spec_bind_quiet:
  assumes "quiet m" "\<And>x. spec (f x) h c r Q"
  shows "spec (py_bind m f) h c r Q"
  by (rule spec_bind, rule spec_quiet [OF assms(1)]) (simp add: assms(2))

lemma spec_bind_yields:
  assumes "yields m v" "spec (f v) h c r Q"
  shows "spec (py_bind m f) h c r Q"
proof (rule spec_bind)
  show "spec m h c r (\<lambda>out h' c' r'. case out of Inl e \<Rightarrow> Q (Inl e) h' c' r'
                                         | Inr x \<Rightarrow> spec (f x) h' c' r' Q)"
    using assms unfolding spec_def yields_def functional_eq by simp
qed

lemma spec_yields: "yields m v \<Longrightarrow> Q (Inr v) h c r \<Longrightarrow> spec m h c r Q"
  unfolding spec_def yields_def functional_eq by simp

lemma spec_return: "Q (Inr x) h c r \<Longrightarrow> spec (py_return x) h c r Q"
  by (simp add: spec_def py_return_def)

lemma spec_lift: "Q out h c r \<Longrightarrow> spec (py_lift out) h c r Q"
  by (simp add: spec_def py_lift_def)

lemma spec_bind_return: "spec (f x) h c r Q \<Longrightarrow> spec (py_bind (py_return x) f) h c r Q"
  by (simp add: spec_def py_bind_def py_return_def)

lemma spec_bind_lift:
  "(\<And>e. out = Inl e \<Longrightarrow> Q (Inl e) h c r) \<Longrightarrow> (\<And>x. out = Inr x \<Longrightarrow> spec (f x) h c r Q)
   \<Longrightarrow> spec (py_bind (py_lift out) f) h c r Q"
  by (cases out) (simp_all add: spec_def py_bind_def py_lift_def)

lemma spec_bind_set_result:
  "spec (f ()) h c (AList.update k v r) Q \<Longrightarrow> spec (py_bind (set_result k v) f) h c r Q"
  by (simp add: spec_def py_bind_def set_result_def py_modify_def)

lemma spec_set_result:
  "Q (Inr ()) h c (AList.update k v r) \<Longrightarrow> spec (set_result k v) h c r Q"
  by (simp add: spec_def set_result_def py_modify_def)

lemma spec_bind_history_append:
  "spec (f ()) (h @ [entry]) c r Q \<Longrightarrow> spec (py_bind (history_append entry) f) h c r Q"
  by (simp add: spec_def py_bind_def history_append_def py_modify_def)

lemma spec_bind_get_result:
  "spec (f r) h c r Q \<Longrightarrow> spec (py_bind (py_get pq_result) f) h c r Q"
  by (simp add: spec_def py_bind_def py_get_def)

lemma spec_get_result: "Q (Inr r) h c r \<Longrightarrow> spec (py_get pq_result) h c r Q"
  by (simp add: spec_def py_get_def)

lemma spec_bind_get_history:
  "spec (f h) h c r Q \<Longrightarrow> spec (py_bind (py_get conversation_history) f) h c r Q"
  by (simp add: spec_def py_bind_def py_get_def)

lemma spec_bind_if:
  "(b \<Longrightarrow> spec (py_bind m1 f) h c r Q) \<Longrightarrow> (\<not> b \<Longrightarrow> spec (py_bind m2 f) h c r Q)
   \<Longrightarrow> spec (py_bind (if b then m1 else m2) f) h c r Q"
  by simp

lemma spec_if:
  "(b \<Longrightarrow> spec m1 h c r Q) \<Longrightarrow> (\<not> b \<Longrightarrow> spec m2 h c r Q) \<Longrightarrow> spec (if b then m1 else m2) h c r Q"
  by simp

lemma py_bind_assoc: "py_bind (py_bind m g) f = py_bind m (\<lambda>x. py_bind (g x) f)"
  by (auto simp: py_bind_def fun_eq_iff split: prod.splits sum.splits)

lemma spec_try:
  assumes "spec m h c r (\<lambda>out h' c' r'. case out of Inl e \<Rightarrow> spec (handler e) h' c' r' Q
                                         | Inr x \<Rightarrow> Q (Inr x) h' c' r')"
  shows "spec (py_try m handler) h c r Q"
  unfolding spec_def
proof (intro allI impI)
  fix w :: world assume w: "conversation_history w = h \<and> tool_calls w = c \<and> pq_result w = r"
  obtain out w' where m: "m w = (out, w')" by (cases "m w")
  from w m have *: "case out of Inl e \<Rightarrow> spec (handler e) (conversation_history w') (tool_calls w') (pq_result w') Q
     | Inr x \<Rightarrow> Q (Inr x) (conversation_history w') (tool_calls w') (pq_result w')"
    using specD [OF assms, of w] by (cases out) simp_all
  show "Q (fst (py_try m handler w)) (conversation_history (snd (py_try m handler w)))
          (tool_calls (snd (py_try m handler w))) (pq_result (snd (py_try m handler w)))"
  proof (cases out)
    case (Inl e)
    with * m show ?thesis by (simp add: py_try_def spec_def)
  next
    case (Inr x)
    with * m show ?thesis by (simp add: py_try_def)
  qed
qed

lemma spec_finally_quiet:
  assumes "quiet fin" "spec m h c r Q"
  shows "spec (py_finally m fin) h c r Q"
  unfolding spec_def
proof (intro allI impI)
  fix w :: world assume w: "conversation_history w = h \<and> tool_calls w = c \<and> pq_result w = r"
  obtain out w' where m: "m w = (out, w')" by (cases "m w")
  from assms(1) obtain x where "fst (fin w') = Inr x" and fr: "functional (snd (fin w')) = functional w'"
    unfolding quiet_def by blast
  then obtain w'' where f: "fin w' = (Inr x, w'')" and fr: "functional w'' = functional w'"
    by (cases "fin w'") auto
  from w m have "Q out (conversation_history w') (tool_calls w') (pq_result w')"
    using specD [OF assms(2), of w] by simp
  with m f fr show "Q (fst (py_finally m fin w)) (conversation_history (snd (py_finally m fin w)))
          (tool_calls (snd (py_finally m fin w))) (pq_result (snd (py_finally m fin w)))"
    by (simp add: py_finally_def functional_eq)
qed

lemma spec_bind_call_tool:
  assumes "\<And>e. execute_tool E name args = Inl e \<Longrightarrow> Q (Inl e) h (c @ [(name, args)]) r"
    and "\<And>x. execute_tool E name args = Inr x \<Longrightarrow> spec (f x) h (c @ [(name, args)]) r Q"
  shows "spec (py_bind (call_tool E name args) f) h c r Q"
  using assms
  by (cases "execute_tool E name args")
     (simp_all add: spec_def py_bind_def call_tool_def py_modify_def py_lift_def)

lemma spec_call_tool:
  assumes "Q (execute_tool E name args) h (c @ [(name, args)]) r"
  shows "spec (call_tool E name args) h c r Q"
  using assms
  by (simp_all add: spec_def py_bind_def call_tool_def py_modify_def py_lift_def)

section \<open>The generators return their summaries\<close>

lemma yields_spec:
  assumes "\<And>h c r. spec m h c r (\<lambda>out h' c' r'. out = Inr v \<and> h' = h \<and> c' = c \<and> r' = r)"
  shows "yields m v"
  unfolding yields_def functional_eq
proof
  fix w :: world
  from specD [OF assms, of w] show "fst (m w) = Inr v \<and>
      conversation_history (snd (m w)) = conversation_history w \<and>
      tool_calls (snd (m w)) = tool_calls w \<and> pq_result (snd (m w)) = pq_result w"
    by simp
qed

lemma quiet_new_generator_tracer: "quiet (py_modify (\<lambda>w. w\<lparr>generator_tracer := t\<rparr>))"
  by (rule quiet_modify) simp

lemma quiet_new_agent_tracer: "quiet (py_modify (\<lambda>w. w\<lparr>agent_tracer := t\<rparr>))"
  by (rule quiet_modify) simp

lemmas quiet_steps =
  quiet_new_generator_tracer quiet_new_agent_tracer
  quiet_on_generator_tracer [OF quiet_start_trace]
  quiet_on_generator_tracer [OF quiet_start_span]
  quiet_on_generator_tracer [OF quiet_end_span]
  quiet_on_generator_tracer [OF quiet_log_generation]
  quiet_on_generator_tracer [OF quiet_log_score]
  quiet_on_generator_tracer [OF quiet_end_trace]
  quiet_on_agent_tracer [OF quiet_start_trace]
  quiet_on_agent_tracer [OF quiet_start_span]
  quiet_on_agent_tracer [OF quiet_end_span]
  quiet_on_agent_tracer [OF quiet_log_generation]
  quiet_on_agent_tracer [OF quiet_log_score]
  quiet_on_agent_tracer [OF quiet_end_trace]

lemma sql_generate_yields: "yields (sql_generate E q h) (sql_generate_value E q h)"
proof (rule yields_spec)
  fix hh c r
  show "spec (sql_generate E q h) hh c r
     (\<lambda>out h' c' r'. out = Inr (sql_generate_value E q h) \<and> h' = hh \<and> c' = c \<and> r' = r)"
    unfolding sql_generate_def
    apply (rule spec_bind_quiet, rule quiet_steps)+
    apply (rule spec_try)
    apply (rule spec_bind_lift)
     apply (simp, (rule spec_bind_quiet, rule quiet_steps)+, rule spec_return,
        simp add: sql_generate_value_def sql_failure_def)
    apply (rule spec_bind_lift)
     apply (simp, (rule spec_bind_quiet, rule quiet_steps)+, rule spec_return,
        simp add: sql_generate_value_def sql_failure_def)
    apply (rule spec_bind_lift)
     apply (simp, (rule spec_bind_quiet, rule quiet_steps)+, rule spec_return,
        simp add: sql_generate_value_def sql_failure_def)
    apply (rule spec_bind_quiet, rule quiet_steps)
    apply (rule spec_bind_if)
     apply (simp only: py_bind_assoc)
     apply (rule spec_bind_lift)
      apply (simp, (rule spec_bind_quiet, rule quiet_steps)+, rule spec_return,
        simp add: sql_generate_value_def sql_failure_def sql_safety_step_def)
     apply (rule spec_bind_if)
      apply (rule spec_bind_return, (rule spec_bind_quiet, rule quiet_steps)+, rule spec_return,
        simp add: sql_generate_value_def sql_failure_def sql_safety_step_def)
     apply (rule spec_bind_return, (rule spec_bind_quiet, rule quiet_steps)+, rule spec_return,
        simp add: sql_generate_value_def sql_failure_def sql_safety_step_def)
    apply (rule spec_bind_return, (rule spec_bind_quiet, rule quiet_steps)+, rule spec_return,
        auto simp add: sql_generate_value_def sql_failure_def sql_safety_step_def)
    done
qed

lemma mongo_generate_yields: "yields (mongo_generate E q h) (mongo_generate_value E q h)"
proof (rule yields_spec)
  fix hh c r
  show "spec (mongo_generate E q h) hh c r
     (\<lambda>out h' c' r'. out = Inr (mongo_generate_value E q h) \<and> h' = hh \<and> c' = c \<and> r' = r)"
    unfolding mongo_generate_def
    apply (rule spec_bind_quiet, rule quiet_steps)+
    apply (rule spec_try)
    apply (rule spec_bind_lift)
     apply (simp, (rule spec_bind_quiet, rule quiet_steps)+, rule spec_return,
        simp add: mongo_generate_value_def mongo_failure_def)
    apply (rule spec_bind_lift)
     apply (simp, (rule spec_bind_quiet, rule quiet_steps)+, rule spec_return,
        simp add: mongo_generate_value_def mongo_failure_def)
    apply (rule spec_bind_lift)
     apply (simp, (rule spec_bind_quiet, rule quiet_steps)+, rule spec_return,
        simp add: mongo_generate_value_def mongo_failure_def)
    apply (rule spec_bind_quiet, rule quiet_steps)
    apply (rule spec_bind_lift)
     apply (simp, (rule spec_bind_quiet, rule quiet_steps)+, rule spec_return,
        simp add: mongo_generate_value_def mongo_failure_def)
    apply ((rule spec_bind_quiet, rule quiet_steps)+, rule spec_return,
        simp add: mongo_generate_value_def mongo_failure_def)
    done
qed

section \<open>\<open>process_query\<close> returns its summary\<close>

lemma spec_bind_generate:
  assumes "\<And>e. generated E db q h = Inl e \<Longrightarrow> Q (Inl e) h c r"
    and "\<And>g. generated E db q h = Inr g \<Longrightarrow> spec (f g) h c r Q"
  shows "spec (py_bind (if db = ''postgresql'' then generate_postgres_query E q
                        else generate_mongodb_query E q) f) h c r Q"
proof (cases "db = ''postgresql''")
  case True
  show ?thesis
    unfolding generate_postgres_query_def py_bind_assoc if_P [OF True]
    apply (rule spec_bind_lift)
    using assms(1) True apply (simp add: generated_def)
    apply (rule spec_bind_if)
     apply (rule spec_bind_return)
    using assms(2) True apply (simp add: generated_def)
    apply (simp only: py_bind_assoc)
    apply (rule spec_bind_get_history)
    apply (rule spec_bind_yields [OF sql_generate_yields])
    using assms(2) True apply (simp add: generated_def)
    done
next
  case False
  show ?thesis
    unfolding generate_mongodb_query_def py_bind_assoc if_not_P [OF False]
    apply (rule spec_bind_lift)
    using assms(1) False apply (simp add: generated_def)
    apply (rule spec_bind_if)
     apply (rule spec_bind_return)
    using assms(2) False apply (simp add: generated_def)
    apply (simp only: py_bind_assoc)
    apply (rule spec_bind_get_history)
    apply (rule spec_bind_yields [OF mongo_generate_yields])
    using assms(2) False apply (simp add: generated_def)
    done
qed

lemma execute_query_plan:
  "execute_query E db g =
     (case execute_plan E db g of Inl x \<Rightarrow> py_return x | Inr (n, a) \<Rightarrow> call_tool E n a)"
  by (simp add: execute_query_def execute_plan_def Let_def)

lemma spec_bind_execute_query:
  assumes "\<And>x. execute_plan E db g = Inl x \<Longrightarrow> spec (f x) h c r Q"
    and "\<And>n a e. execute_plan E db g = Inr (n, a) \<Longrightarrow> execute_tool E n a = Inl e
           \<Longrightarrow> Q (Inl e) h (c @ [(n, a)]) r"
    and "\<And>n a x. execute_plan E db g = Inr (n, a) \<Longrightarrow> execute_tool E n a = Inr x
           \<Longrightarrow> spec (f x) h (c @ [(n, a)]) r Q"
  shows "spec (py_bind (execute_query E db g) f) h c r Q"
proof (cases "execute_plan E db g")
  case (Inl x)
  with assms(1) show ?thesis
    by (simp add: execute_query_plan spec_bind_return)
next
  case (Inr p)
  obtain n a where p: "p = (n, a)" by (cases p)
  with Inr assms(2,3) show ?thesis
    by (simp add: execute_query_plan spec_bind_call_tool)
qed

lemma spec_bind_assoc:
  "spec (py_bind m (\<lambda>x. py_bind (g x) f)) h c r Q \<Longrightarrow> spec (py_bind (py_bind m g) f) h c r Q"
  by (simp add: py_bind_assoc)

lemmas vcg =
  spec_bind_return spec_bind_set_result spec_bind_history_append spec_bind_get_result
  spec_bind_generate spec_bind_execute_query spec_bind_if spec_bind_lift spec_bind_assoc
  spec_bind_quiet spec_if spec_return spec_set_result spec_quiet quiet_steps

lemma process_query_body_spec:
  "spec (process_query_body E q) h c (initial_result q)
     (\<lambda>out h' c' r'.
        (case out of Inl e \<Rightarrow> caught E e r' | Inr u \<Rightarrow> r') = fst (process_query_summary E q h)
        \<and> h' = fst (snd (process_query_summary E q h))
        \<and> c' = c @ snd (snd (process_query_summary E q h)))"
  unfolding process_query_body_def
  apply (intro vcg)
  apply (simp_all add: process_query_summary_def finish_def Let_def history_entries_def)
  done

lemma spec_weaken:
  assumes "spec m h c r P" "\<And>out h' c' r'. P out h' c' r' \<Longrightarrow> Q out h' c' r'"
  shows "spec m h c r Q"
  using assms unfolding spec_def by blast

lemma spec_bind_init_result:
  "spec (f ()) h c r0 Q \<Longrightarrow> spec (py_bind (py_modify (\<lambda>w. w\<lparr>pq_result := r0\<rparr>)) f) h c r Q"
  by (simp add: spec_def py_bind_def py_modify_def)

lemma process_query_spec:
  "spec (process_query E q) h c r
     (\<lambda>out h' c' r'.
        out = Inr (fst (process_query_summary E q h))
        \<and> h' = fst (snd (process_query_summary E q h))
        \<and> c' = c @ snd (snd (process_query_summary E q h)))"
proof -
  let ?S = "process_query_summary E q h"
  let ?Q = "\<lambda>(out :: exn + (string \<times> json) list) h' c' r'.
              out = Inr (fst ?S) \<and> h' = fst (snd ?S) \<and> c' = c @ snd (snd ?S)"
  let ?Q2 = "\<lambda>(out :: exn + unit) h' c' r'.
               case out of Inl e \<Rightarrow> ?Q (Inl e) h' c' r'
                         | Inr x \<Rightarrow> spec (py_get pq_result) h' c' r' ?Q"
  let ?handler = "\<lambda>e. py_bind (set_result ''error'' (JStr (exn_str E e)))
                         (\<lambda>u. on_agent_tracer (log_score E))"
  have after: "spec (py_get pq_result) h' c' r' ?Q"
    if "r' = fst ?S" "h' = fst (snd ?S)" "c' = c @ snd (snd ?S)" for h' c' r'
    using that by (intro spec_get_result) simp
  have handler: "spec (?handler e) h' c' r' ?Q2"
    if "caught E e r' = fst ?S" "h' = fst (snd ?S)" "c' = c @ snd (snd ?S)" for e h' c' r'
  proof (rule spec_bind_set_result, rule spec_quiet)
    show "quiet (on_agent_tracer (log_score E))"
      by (rule quiet_steps)
    show "?Q2 (Inr x) h' c' (AList.update ''error'' (JStr (exn_str E e)) r')" for x
      using that after by (simp add: caught_def)
  qed
  have body: "spec (process_query_body E q) h c (initial_result q)
      (\<lambda>out h' c' r'. case out of Inl e \<Rightarrow> spec (?handler e) h' c' r' ?Q2
                                   | Inr x \<Rightarrow> ?Q2 (Inr x) h' c' r')"
  proof (rule spec_weaken [OF process_query_body_spec])
    fix out :: "exn + unit" and h' c' r'
    assume P: "(case out of Inl e \<Rightarrow> caught E e r' | Inr u \<Rightarrow> r') = fst ?S
        \<and> h' = fst (snd ?S) \<and> c' = c @ snd (snd ?S)"
    show "case out of Inl e \<Rightarrow> spec (?handler e) h' c' r' ?Q2
                    | Inr x \<Rightarrow> ?Q2 (Inr x) h' c' r'"
    proof (cases out)
      case (Inl e)
      with P handler [of e r' h' c'] show ?thesis by simp
    next
      case (Inr x)
      with P after [of r' h' c'] show ?thesis by simp
    qed
  qed
  show ?thesis
    unfolding process_query_def
    apply (rule spec_bind_quiet, rule quiet_steps)+
    apply (rule spec_bind_init_result)
    apply (rule spec_bind)
    apply (rule spec_finally_quiet, rule quiet_steps)
    apply (rule spec_try)
    apply (rule body)
    done
qed

lemma process_query_result:
  "\<exists>w'. process_query E q w = (Inr (fst (process_query_summary E q (conversation_history w))), w')
      \<and> conversation_history w' = fst (snd (process_query_summary E q (conversation_history w)))
      \<and> tool_calls w' = tool_calls w @ snd (snd (process_query_summary E q (conversation_history w)))"
  using specD [OF process_query_spec [of E q "conversation_history w" "tool_calls w" "pq_result w"], of w]
  by (cases "process_query E q w") simp

section \<open>Facts about the summary\<close>

lemma dict_get_update:
  "dict_get (AList.update k v d) k' = (if k' = k then v else dict_get d k')"
  by (simp add: dict_get_def update_conv')

lemma dict_get_initial_result:
  "dict_get (initial_result q) ''success'' = JBool False"
  "dict_get (initial_result q) ''error'' = JNull"
  by (simp_all add: dict_get_def initial_result_def)

lemma dict_get_caught:
  "dict_get (caught E e r) ''error'' = JStr (exn_str E e)"
  "dict_get (caught E e r) ''success'' = dict_get r ''success''"
  by (simp_all add: caught_def dict_get_update)

lemma finish_history:
  assumes "dict_get r1 ''success'' = JBool False" "dict_get r1 ''error'' = JNull"
    and "finish E q h r1 calls outcome = (r, h', c')"
  shows "if dict_get r ''success'' = JBool True \<and> dict_get r ''error'' = JNull
         then h' = h @ history_entries E q (dict_get r ''row_count'')
         else h' = h"
  using assms
  by (auto simp: finish_def Let_def dict_get_update dict_get_caught
      split: sum.splits if_splits)

lemma summary_history:
  assumes "process_query_summary E q h = (r, h', c')"
  shows "if dict_get r ''success'' = JBool True \<and> dict_get r ''error'' = JNull
         then h' = h @ history_entries E q (dict_get r ''row_count'')
         else h' = h"
proof -
  let ?db = "database (fast_route (py_lower E) (available_databases E) q)"
  let ?r0 = "AList.update ''database'' (JStr ?db) (initial_result q)"
  show ?thesis
  proof (cases "generated E ?db q h")
    case (Inl e)
    with assms show ?thesis
      by (auto simp: process_query_summary_def Let_def dict_get_caught)
  next
    case (Inr g)
    show ?thesis
    proof (cases "truthy (dict_get g ''success'')")
      case False
      with Inr assms show ?thesis
        by (auto simp: process_query_summary_def Let_def dict_get_update dict_get_initial_result)
    next
      case True
      let ?r1 = "AList.update ''explanation'' (dict_get_default g ''explanation'' (JStr ''''))
                   (AList.update ''generated_query'' (JDict g) ?r0)"
      have r1: "dict_get ?r1 ''success'' = JBool False" "dict_get ?r1 ''error'' = JNull"
        by (simp_all add: dict_get_update dict_get_initial_result)
      from True Inr assms obtain calls outcome where "finish E q h ?r1 calls outcome = (r, h', c')"
        by (auto simp: process_query_summary_def Let_def split: sum.splits prod.splits)
      from finish_history [OF r1 this] show ?thesis .
    qed
  qed
qed

lemma summary_cases:
  "process_query_summary E q h =
     (case generated E (routed E q) q h of
        Inl e \<Rightarrow> (caught E e (routed_result E q), h, [])
      | Inr g \<Rightarrow>
          if \<not> truthy (dict_get g ''success'') then
            (AList.update ''error''
               (dict_get_default g ''error'' (JStr ''Failed to generate query''))
               (routed_result E q), h, [])
          else finish E q h (generated_result E q g) (dispatched E (routed E q) g)
                 (executed E (routed E q) g))"
  by (simp add: process_query_summary_def routed_def routed_result_def generated_result_def
      executed_def dispatched_def Let_def split: sum.splits prod.splits)

lemma dict_get_routed_result:
  "dict_get (routed_result E q) ''success'' = JBool False"
  "dict_get (routed_result E q) ''error'' = JNull"
  by (simp_all add: routed_result_def dict_get_update dict_get_initial_result)

lemma dict_get_generated_result:
  "dict_get (generated_result E q g) ''success'' = JBool False"
  "dict_get (generated_result E q g) ''error'' = JNull"
  by (simp_all add: generated_result_def dict_get_update dict_get_routed_result)

lemma summary_generation_raised:
  assumes "generated E (routed E q) q h = Inl e"
  shows "process_query_summary E q h = (caught E e (routed_result E q), h, [])"
  using assms by (simp add: summary_cases)

lemma summary_generation_failed:
  assumes "generated E (routed E q) q h = Inr g" "\<not> truthy (dict_get g ''success'')"
  shows "process_query_summary E q h =
     (AList.update ''error'' (dict_get_default g ''error'' (JStr ''Failed to generate query''))
        (routed_result E q), h, [])"
  using assms by (simp add: summary_cases)

lemma summary_executed:
  assumes "generated E (routed E q) q h = Inr g" "truthy (dict_get g ''success'')"
  shows "process_query_summary E q h =
     finish E q h (generated_result E q g) (dispatched E (routed E q) g)
       (executed E (routed E q) g)"
  using assms by (simp add: summary_cases)

lemma finish_raised:
  "finish E q h r1 calls (Inl e) = (caught E e r1, h, calls)"
  by (simp add: finish_def)

lemma finish_failed:
  "\<not> truthy (dict_get x ''success'') \<Longrightarrow>
   finish E q h r1 calls (Inr x) =
     (AList.update ''error'' (dict_get_default x ''error'' (JStr ''Query execution failed'')) r1,
      h, calls)"
  by (simp add: finish_def)

lemma finish_succeeded:
  assumes "truthy (dict_get x ''success'')"
    and "\<not> truthy (dict_get_default x ''data'' (JList [])) \<or>
         data_frame E (dict_get_default x ''data'' (JList [])) = Inr df"
  shows "\<exists>r. finish E q h r1 calls (Inr x) =
       (r, h @ history_entries E q (dict_get_default x ''row_count'' (JNum 0)), calls)
     \<and> dict_get r ''success'' = JBool True \<and> dict_get r ''error'' = dict_get r1 ''error''
     \<and> dict_get r ''row_count'' = dict_get_default x ''row_count'' (JNum 0)
     \<and> dict_get r ''data'' = dict_get_default x ''data'' (JList [])"
  using assms by (auto simp: finish_def Let_def dict_get_update)

lemma finish_data_frame_raised:
  assumes "truthy (dict_get x ''success'')"
    and "truthy (dict_get_default x ''data'' (JList []))"
    and "data_frame E (dict_get_default x ''data'' (JList [])) = Inl e"
  shows "\<exists>r. finish E q h r1 calls (Inr x) = (r, h, calls)
     \<and> dict_get r ''success'' = JBool True \<and> dict_get r ''error'' = JStr (exn_str E e)"
  using assms by (auto simp: finish_def Let_def dict_get_update dict_get_caught)

section \<open>Claims about the conversation history\<close>

text \<open>
  C7. \<open>process_query\<close> always returns its result dictionary, and it changes the
  conversation history only when the query succeeds completely.

  \<^item> Whatever happened, the history afterwards is the old one extended by exactly the two
    entries \<open>{role: user, content: question}\<close> and
    \<open>{role: assistant, content: "Returned N rows"}\<close>, in this order (so the length grows
    by 2), when the returned dictionary has \<open>success\<close> true and no error, and is the old
    history otherwise.
  \<^item> Generation failure: when the generation step raises, or returns a dictionary whose
    \<open>success\<close> is not truthy, the history is unchanged and the result has \<open>success\<close> false.
  \<^item> Execution failure: when the generation succeeded and \<open>_execute_query\<close> raises, or
    returns a dictionary whose \<open>success\<close> is not truthy, the history is unchanged and the
    result has \<open>success\<close> false. When building the data frame raises, the history is
    unchanged too.
  \<^item> Full success: when the generation succeeded, \<open>_execute_query\<close> returned a dictionary
    with truthy \<open>success\<close>, and the data frame (needed only for non-empty data) was built,
    the two entries are appended, with \<open>N\<close> the \<open>row_count\<close> the execution returned (0 if
    it returned none), and the result has \<open>success\<close> true and no error.

  \<open>generated\<close> is what \<open>_generate_postgres_query\<close> or \<open>_generate_mongodb_query\<close> gives for
  the routed store, \<open>executed\<close> what \<open>_execute_query\<close> gives.
\<close>

theorem process_query_history:
  "\<exists>r w'. process_query E q w = (Inr r, w')
     \<and> (if dict_get r ''success'' = JBool True \<and> dict_get r ''error'' = JNull
         then conversation_history w' = conversation_history w @
                [JDict [(''role'', JStr ''user''), (''content'', JStr q)],
                 JDict [(''role'', JStr ''assistant''),
                        (''content'',
                         JStr (''Returned '' @ py_str E (dict_get r ''row_count'') @ '' rows''))]]
              \<and> length (conversation_history w') = length (conversation_history w) + 2
         else conversation_history w' = conversation_history w)
     \<and> (generated E (routed E q) q (conversation_history w) = Inl e
         \<longrightarrow> conversation_history w' = conversation_history w
             \<and> dict_get r ''success'' = JBool False)
     \<and> (generated E (routed E q) q (conversation_history w) = Inr g
           \<and> \<not> truthy (dict_get g ''success'')
         \<longrightarrow> conversation_history w' = conversation_history w
             \<and> dict_get r ''success'' = JBool False)
     \<and> (generated E (routed E q) q (conversation_history w) = Inr g
           \<and> truthy (dict_get g ''success'')
           \<and> executed E (routed E q) g = Inl e
         \<longrightarrow> conversation_history w' = conversation_history w
             \<and> dict_get r ''success'' = JBool False)
     \<and> (generated E (routed E q) q (conversation_history w) = Inr g
           \<and> truthy (dict_get g ''success'')
           \<and> executed E (routed E q) g = Inr x \<and> \<not> truthy (dict_get x ''success'')
         \<longrightarrow> conversation_history w' = conversation_history w
             \<and> dict_get r ''success'' = JBool False)
     \<and> (generated E (routed E q) q (conversation_history w) = Inr g
           \<and> truthy (dict_get g ''success'')
           \<and> executed E (routed E q) g = Inr x \<and> truthy (dict_get x ''success'')
           \<and> truthy (dict_get_default x ''data'' (JList []))
           \<and> data_frame E (dict_get_default x ''data'' (JList [])) = Inl e
         \<longrightarrow> conversation_history w' = conversation_history w)
     \<and> (generated E (routed E q) q (conversation_history w) = Inr g
           \<and> truthy (dict_get g ''success'')
           \<and> executed E (routed E q) g = Inr x \<and> truthy (dict_get x ''success'')
           \<and> (\<not> truthy (dict_get_default x ''data'' (JList [])) \<or>
                data_frame E (dict_get_default x ''data'' (JList [])) = Inr df)
         \<longrightarrow> conversation_history w' = conversation_history w @
                [JDict [(''role'', JStr ''user''), (''content'', JStr q)],
                 JDict [(''role'', JStr ''assistant''),
                        (''content'',
                         JStr (''Returned '' @
                               py_str E (dict_get_default x ''row_count'' (JNum 0)) @ '' rows''))]]
             \<and> dict_get r ''success'' = JBool True \<and> dict_get r ''error'' = JNull)"
proof -
  let ?h = "conversation_history w"
  let ?gen = "generated E (routed E q) q ?h"
  let ?data = "dict_get_default x ''data'' (JList [])"
  obtain r h' c' where s: "process_query_summary E q ?h = (r, h', c')"
    by (cases "process_query_summary E q ?h")
  from process_query_result [of E q w] s obtain w' where
    w': "process_query E q w = (Inr r, w')" and h': "conversation_history w' = h'"
    by auto
  from summary_history [OF s] h'
  have flags: "if dict_get r ''success'' = JBool True \<and> dict_get r ''error'' = JNull
         then conversation_history w' = ?h @
                [JDict [(''role'', JStr ''user''), (''content'', JStr q)],
                 JDict [(''role'', JStr ''assistant''),
                        (''content'',
                         JStr (''Returned '' @ py_str E (dict_get r ''row_count'') @ '' rows''))]]
              \<and> length (conversation_history w') = length ?h + 2
         else conversation_history w' = ?h"
    by (auto simp: history_entries_def)
  have raised: "?gen = Inl e
      \<longrightarrow> conversation_history w' = ?h \<and> dict_get r ''success'' = JBool False"
  proof
    assume "?gen = Inl e"
    from summary_generation_raised [OF this] s h'
    show "conversation_history w' = ?h \<and> dict_get r ''success'' = JBool False"
      by (auto simp: dict_get_caught dict_get_routed_result)
  qed
  have failed: "?gen = Inr g \<and> \<not> truthy (dict_get g ''success'')
      \<longrightarrow> conversation_history w' = ?h \<and> dict_get r ''success'' = JBool False"
  proof
    assume "?gen = Inr g \<and> \<not> truthy (dict_get g ''success'')"
    then have a: "?gen = Inr g" "\<not> truthy (dict_get g ''success'')"
      by simp_all
    from summary_generation_failed [OF a] s h'
    show "conversation_history w' = ?h \<and> dict_get r ''success'' = JBool False"
      by (auto simp: dict_get_update dict_get_routed_result)
  qed
  have exec_raised: "?gen = Inr g \<and> truthy (dict_get g ''success'')
        \<and> executed E (routed E q) g = Inl e
      \<longrightarrow> conversation_history w' = ?h \<and> dict_get r ''success'' = JBool False"
  proof
    assume "?gen = Inr g \<and> truthy (dict_get g ''success'')
        \<and> executed E (routed E q) g = Inl e"
    then have a: "?gen = Inr g" "truthy (dict_get g ''success'')"
      and b: "executed E (routed E q) g = Inl e"
      by simp_all
    from summary_executed [OF a] b s h'
    show "conversation_history w' = ?h \<and> dict_get r ''success'' = JBool False"
      by (auto simp: finish_raised dict_get_caught dict_get_generated_result)
  qed
  have exec_failed: "?gen = Inr g \<and> truthy (dict_get g ''success'')
        \<and> executed E (routed E q) g = Inr x \<and> \<not> truthy (dict_get x ''success'')
      \<longrightarrow> conversation_history w' = ?h \<and> dict_get r ''success'' = JBool False"
  proof
    assume "?gen = Inr g \<and> truthy (dict_get g ''success'')
        \<and> executed E (routed E q) g = Inr x \<and> \<not> truthy (dict_get x ''success'')"
    then have a: "?gen = Inr g" "truthy (dict_get g ''success'')"
      and b: "executed E (routed E q) g = Inr x" and c: "\<not> truthy (dict_get x ''success'')"
      by simp_all
    from summary_executed [OF a] b finish_failed [OF c] s h'
    show "conversation_history w' = ?h \<and> dict_get r ''success'' = JBool False"
      by (auto simp: dict_get_update dict_get_generated_result)
  qed
  have frame_raised: "?gen = Inr g \<and> truthy (dict_get g ''success'')
        \<and> executed E (routed E q) g = Inr x \<and> truthy (dict_get x ''success'')
        \<and> truthy ?data \<and> data_frame E ?data = Inl e
      \<longrightarrow> conversation_history w' = ?h"
  proof
    assume "?gen = Inr g \<and> truthy (dict_get g ''success'')
        \<and> executed E (routed E q) g = Inr x \<and> truthy (dict_get x ''success'')
        \<and> truthy ?data \<and> data_frame E ?data = Inl e"
    then have a: "?gen = Inr g" "truthy (dict_get g ''success'')"
      and b: "executed E (routed E q) g = Inr x"
      and c: "truthy (dict_get x ''success'')" "truthy ?data" "data_frame E ?data = Inl e"
      by simp_all
    from summary_executed [OF a] b s h'
      finish_data_frame_raised [OF c, of q ?h "generated_result E q g"
        "dispatched E (routed E q) g"]
    show "conversation_history w' = ?h"
      by auto
  qed
  have succeeded: "?gen = Inr g \<and> truthy (dict_get g ''success'')
        \<and> executed E (routed E q) g = Inr x \<and> truthy (dict_get x ''success'')
        \<and> (\<not> truthy ?data \<or> data_frame E ?data = Inr df)
      \<longrightarrow> conversation_history w' = ?h @
                [JDict [(''role'', JStr ''user''), (''content'', JStr q)],
                 JDict [(''role'', JStr ''assistant''),
                        (''content'',
                         JStr (''Returned '' @
                               py_str E (dict_get_default x ''row_count'' (JNum 0)) @ '' rows''))]]
          \<and> dict_get r ''success'' = JBool True \<and> dict_get r ''error'' = JNull"
  proof
    assume "?gen = Inr g \<and> truthy (dict_get g ''success'')
        \<and> executed E (routed E q) g = Inr x \<and> truthy (dict_get x ''success'')
        \<and> (\<not> truthy ?data \<or> data_frame E ?data = Inr df)"
    then have a: "?gen = Inr g" "truthy (dict_get g ''success'')"
      and b: "executed E (routed E q) g = Inr x"
      and c: "truthy (dict_get x ''success'')"
        "\<not> truthy ?data \<or> data_frame E ?data = Inr df"
      by simp_all
    from summary_executed [OF a] b s h'
      finish_succeeded [OF c, of q ?h "generated_result E q g" "dispatched E (routed E q) g"]
    show "conversation_history w' = ?h @
                [JDict [(''role'', JStr ''user''), (''content'', JStr q)],
                 JDict [(''role'', JStr ''assistant''),
                        (''content'',
                         JStr (''Returned '' @
                               py_str E (dict_get_default x ''row_count'' (JNum 0)) @ '' rows''))]]
          \<and> dict_get r ''success'' = JBool True \<and> dict_get r ''error'' = JNull"
      by (auto simp: dict_get_generated_result history_entries_def)
  qed
  show ?thesis
    by (intro exI [of _ r] exI [of _ w'] conjI)
       (rule w' flags raised failed exec_raised exec_failed frame_raised succeeded)+
qed

theorem process_query_history_witness:
  \<open>(\<exists>r w'. process_query (test_env (Inl (ExternalError ''overloaded'')) [] tool_one_row)
              ''list the orders'' start_world = (Inr r, w')
        \<and> conversation_history w' = [] \<and> dict_get r ''success'' = JBool False)
   \<and> (\<exists>r w'. process_query
              ((test_env (Inr ''{"sql": "SELECT 1"}'') [(''sql'', JStr ''SELECT 1'')] tool_one_row)
                 \<lparr>sql_generator := Inl (ExternalError ''no schema'')\<rparr>)
              ''list the orders'' start_world = (Inr r, w')
        \<and> conversation_history w' = [] \<and> dict_get r ''success'' = JBool False)
   \<and> (\<exists>r w'. process_query
              (test_env (Inr ''{"sql": "SELECT 1"}'') [(''sql'', JStr ''SELECT 1'')] tool_raises)
              ''list the orders'' start_world = (Inr r, w')
        \<and> conversation_history w' = [] \<and> dict_get r ''success'' = JBool False)
   \<and> (\<exists>r w'. process_query
              (test_env (Inr ''{"sql": "SELECT 1"}'') [(''sql'', JStr ''SELECT 1'')] tool_fails)
              ''list the orders'' start_world = (Inr r, w')
        \<and> conversation_history w' = [] \<and> dict_get r ''success'' = JBool False)
   \<and> (\<exists>r w'. process_query
              ((test_env (Inr ''{"sql": "SELECT 1"}'') [(''sql'', JStr ''SELECT 1'')] tool_one_row)
                 \<lparr>data_frame := \<lambda>d. Inl TypeError\<rparr>)
              ''list the orders'' start_world = (Inr r, w')
        \<and> conversation_history w' = [])
   \<and> (\<exists>r w'. process_query
              (test_env (Inr ''{"sql": "SELECT 1"}'') [(''sql'', JStr ''SELECT 1'')] tool_one_row)
              ''list the orders'' start_world = (Inr r, w')
        \<and> conversation_history w' =
            [JDict [(''role'', JStr ''user''), (''content'', JStr ''list the orders'')],
             JDict [(''role'', JStr ''assistant''), (''content'', JStr ''Returned 1 rows'')]]
        \<and> dict_get r ''success'' = JBool True)\<close>
proof -
  let ?q = "''list the orders''"
  let ?Ea = "test_env (Inl (ExternalError ''overloaded'')) [] tool_one_row"
  let ?Eb = \<open>test_env (Inr ''{"sql": "SELECT 1"}'') [(''sql'', JStr ''SELECT 1'')] tool_raises\<close>
  let ?Ec = \<open>test_env (Inr ''{"sql": "SELECT 1"}'') [(''sql'', JStr ''SELECT 1'')] tool_one_row\<close>
  let ?Ed = \<open>?Ec\<lparr>sql_generator := Inl (ExternalError ''no schema'')\<rparr>\<close>
  let ?Ee = \<open>test_env (Inr ''{"sql": "SELECT 1"}'') [(''sql'', JStr ''SELECT 1'')] tool_fails\<close>
  let ?Ef = \<open>?Ec\<lparr>data_frame := \<lambda>d. Inl TypeError\<rparr>\<close>
  let ?g = "[(''sql'', JStr ''SELECT 1''), (''success'', JBool True)]"
  let ?f = "[(''success'', JBool False), (''error'', JStr ''error''), (''sql'', JNull)]"
  let ?x = "[(''success'', JBool True), (''data'', JList [JDict [(''n'', JNum 1)]]),
             (''row_count'', JNum 1)]"
  let ?y = "[(''success'', JBool False), (''error'', JStr ''relation does not exist''),
             (''data'', JList []), (''row_count'', JNum 0)]"
  have h0: "conversation_history start_world = []"
    by (simp add: start_world_def)
  have a1: "generated ?Ea (routed ?Ea ?q) ?q [] = Inr ?f"
    by code_simp
  have b1: "generated ?Eb (routed ?Eb ?q) ?q [] = Inr ?g"
    by code_simp
  have b2: "executed ?Eb (routed ?Eb ?q) ?g = Inl (ExternalError ''connection refused'')"
    by code_simp
  have c1: "generated ?Ec (routed ?Ec ?q) ?q [] = Inr ?g"
    by code_simp
  have c2: "executed ?Ec (routed ?Ec ?q) ?g = Inr ?x"
    by code_simp
  have c3: "data_frame ?Ec (dict_get_default ?x ''data'' (JList [])) = Inr (JStr ''DataFrame'')"
    by code_simp
  have c4: "py_str ?Ec (dict_get_default ?x ''row_count'' (JNum 0)) = ''1''"
    by code_simp
  have d1: "generated ?Ed (routed ?Ed ?q) ?q [] = Inl (ExternalError ''no schema'')"
    by code_simp
  have e1: "generated ?Ee (routed ?Ee ?q) ?q [] = Inr ?g"
    by code_simp
  have e2: "executed ?Ee (routed ?Ee ?q) ?g = Inr ?y"
    by code_simp
  have f1: "generated ?Ef (routed ?Ef ?q) ?q [] = Inr ?g"
    by code_simp
  have f2: "executed ?Ef (routed ?Ef ?q) ?g = Inr ?x"
    by code_simp
  have f3: "data_frame ?Ef (dict_get_default ?x ''data'' (JList [])) = Inl TypeError"
    by code_simp
  have t: "truthy (dict_get ?g ''success'')" "truthy (dict_get ?x ''success'')"
    "\<not> truthy (dict_get ?f ''success'')" "\<not> truthy (dict_get ?y ''success'')"
    "truthy (dict_get_default ?x ''data'' (JList []))"
    by (simp_all add: dict_get_def dict_get_default_def)
  from process_query_history [where E = ?Ea and q = ?q and w = start_world and g = ?f]
    a1 t h0
  have A: "\<exists>r w'. process_query ?Ea ?q start_world = (Inr r, w')
        \<and> conversation_history w' = [] \<and> dict_get r ''success'' = JBool False"
    by auto
  from process_query_history
    [where E = ?Ed and q = ?q and w = start_world and e = "ExternalError ''no schema''"]
    d1 h0
  have D: "\<exists>r w'. process_query ?Ed ?q start_world = (Inr r, w')
        \<and> conversation_history w' = [] \<and> dict_get r ''success'' = JBool False"
    by auto
  from process_query_history
    [where E = ?Eb and q = ?q and w = start_world and g = ?g
       and e = "ExternalError ''connection refused''"]
    b1 b2 t h0
  have B: "\<exists>r w'. process_query ?Eb ?q start_world = (Inr r, w')
        \<and> conversation_history w' = [] \<and> dict_get r ''success'' = JBool False"
    by auto
  from process_query_history
    [where E = ?Ee and q = ?q and w = start_world and g = ?g and x = ?y]
    e1 e2 t h0
  have E: "\<exists>r w'. process_query ?Ee ?q start_world = (Inr r, w')
        \<and> conversation_history w' = [] \<and> dict_get r ''success'' = JBool False"
    by auto
  from process_query_history
    [where E = ?Ef and q = ?q and w = start_world and g = ?g and x = ?x and e = TypeError]
    f1 f2 f3 t h0
  have F: "\<exists>r w'. process_query ?Ef ?q start_world = (Inr r, w')
        \<and> conversation_history w' = []"
    by auto
  from process_query_history
    [where E = ?Ec and q = ?q and w = start_world and g = ?g and x = ?x
       and df = "JStr ''DataFrame''"]
    c1 c2 c3 c4 t h0
  have C: "\<exists>r w'. process_query ?Ec ?q start_world = (Inr r, w')
        \<and> conversation_history w' =
            [JDict [(''role'', JStr ''user''), (''content'', JStr ?q)],
             JDict [(''role'', JStr ''assistant''), (''content'', JStr ''Returned 1 rows'')]]
        \<and> dict_get r ''success'' = JBool True"
    by auto
  from A D B E F C show ?thesis
    by (intro conjI)
qed

end
